theory Spec2Isabelle
  imports Main
begin

section \<open>Data model (src/wallets/models.ts)\<close>

text \<open>
  A wallet is the interface \<^verbatim>\<open>Wallet\<close>: three strings. A record read back from the data
  file may lack its \<^verbatim>\<open>publicKey\<close>; the store only ever tests that field for falsiness
  and for equality with a non-empty key, and under both tests a missing key and the empty
  string agree, so a missing key is represented by the empty string. The field
  \<^verbatim>\<open>alias\<close> is written \<open>alias'\<close>.
\<close>

record Wallet =
  privateKey :: string
  publicKey :: string
  alias' :: string

record TransactionResult =
  hash :: "string option"
  successful :: bool
  reason :: "string option"

text \<open>Everything the code throws, as a value.\<close>

datatype error =
    IOError
  | TypeError
  | RangeError
  | Error string
  | ChainInfoNotFoundError string

section \<open>The JSON store (src/wallets/store/json-store.ts)\<close>

text \<open>
  The value stored under a chain key of the parsed file. The code distinguishes three
  kinds: an array (\<^verbatim>\<open>Array.isArray\<close>), a falsy value (\<^verbatim>\<open>!data[chain]\<close>: null, false, 0,
  the empty string) and any other value (a number, a string, an object). Array elements
  are wallet objects.
\<close>

datatype jvalue = JFalsy | JOther | JArray "Wallet list"

type_synonym WalletsData = "string \<Rightarrow> jvalue option"

text \<open>
  The data file: absent, text that \<^verbatim>\<open>JSON.parse\<close> rejects with a SyntaxError, text that
  parses to a falsy value (\<^verbatim>\<open>parsedData || {}\<close>), or text that parses to an object, given
  by its own properties. Text that parses to an array or to a truthy primitive is not
  represented: nothing below speaks about such a file.
\<close>

datatype file_content = NoFile | Corrupt | ParsedFalsy | Parsed WalletsData

text \<open>
  The store object together with the file it owns: the \<^verbatim>\<open>initialized\<close> flag of the class,
  the content of \<^verbatim>\<open>dataFile\<close>, and whether the file system lets the process read and
  write it (a refused operation is the I/O error that the code rethrows).
\<close>

record JsonStore =
  initialized :: bool
  dataFile :: file_content
  canRead :: bool
  canWrite :: bool

record AddSummary =
  newCount :: nat
  updatedCount :: nat
  skippedCount :: nat

datatype WalletInput = NoInput | Single Wallet | Many "Wallet list"

definition initialize :: "JsonStore \<Rightarrow> (error + unit) \<times> JsonStore" where
  "initialize st =
     (if initialized st then (Inr (), st)
      else if dataFile st = NoFile then
        (if canWrite st
         then (Inr (), st\<lparr>dataFile := Parsed Map.empty, initialized := True\<rparr>)
         else (Inl IOError, st))
      else (Inr (), st\<lparr>initialized := True\<rparr>))"

definition readData :: "JsonStore \<Rightarrow> (error + WalletsData) \<times> JsonStore" where
  "readData st =
     (case initialize st of
        (Inl e, st1) \<Rightarrow> (Inl e, st1)
      | (Inr u, st1) \<Rightarrow>
          (if \<not> canRead st1 then (Inl IOError, st1)
           else case dataFile st1 of
               NoFile \<Rightarrow> (Inl IOError, st1)
             | Corrupt \<Rightarrow>
                 (if canWrite st1
                  then (Inr Map.empty, st1\<lparr>dataFile := Parsed Map.empty\<rparr>)
                  else (Inl IOError, st1))
             | ParsedFalsy \<Rightarrow> (Inr Map.empty, st1)
             | Parsed d \<Rightarrow> (Inr d, st1)))"

definition writeData :: "WalletsData \<Rightarrow> JsonStore \<Rightarrow> (error + unit) \<times> JsonStore" where
  "writeData d st =
     (case initialize st of
        (Inl e, st1) \<Rightarrow> (Inl e, st1)
      | (Inr u, st1) \<Rightarrow>
          (if canWrite st1 then (Inr (), st1\<lparr>dataFile := Parsed d\<rparr>)
           else (Inl IOError, st1)))"

text \<open>
  \<^verbatim>\<open>data[chain]\<close> on a parsed object: the own property of that name, else the property
  every object inherits from \<^verbatim>\<open>Object.prototype\<close> under that name (a function, or the
  prototype itself for \<^verbatim>\<open>__proto__\<close>: truthy and not an array), else undefined.
\<close>

definition objectPrototypeNames :: "string list" where
  "objectPrototypeNames =
     [''constructor'', ''hasOwnProperty'', ''isPrototypeOf'', ''propertyIsEnumerable'',
      ''toLocaleString'', ''toString'', ''valueOf'', ''__proto__'', ''__defineGetter__'',
      ''__defineSetter__'', ''__lookupGetter__'', ''__lookupSetter__'']"

definition data_get :: "WalletsData \<Rightarrow> string \<Rightarrow> jvalue option" where
  "data_get d chain =
     (case d chain of
        Some v \<Rightarrow> Some v
      | None \<Rightarrow> if chain \<in> set objectPrototypeNames then Some JOther else None)"

definition getWallets :: "string \<Rightarrow> JsonStore \<Rightarrow> (error + Wallet list) \<times> JsonStore" where
  "getWallets chain st =
     (if chain = [] then (Inr [], st)
      else case readData st of
          (Inl e, st1) \<Rightarrow> (Inl e, st1)
        | (Inr d, st1) \<Rightarrow>
            (Inr (case data_get d chain of Some (JArray ws) \<Rightarrow> ws | _ \<Rightarrow> []), st1))"

text \<open>\<^verbatim>\<open>Array.prototype.findIndex\<close>: the first index whose element passes, or -1.\<close>

fun findIndex :: "('a \<Rightarrow> bool) \<Rightarrow> 'a list \<Rightarrow> int" where
  "findIndex P [] = - 1"
| "findIndex P (x # xs) =
     (if P x then 0
      else (let i = findIndex P xs in if i < 0 then - 1 else i + 1))"

text \<open>
  The loop of \<^verbatim>\<open>add\<close> over the input wallets, on the value held under the chain key.
  \<^verbatim>\<open>data[chain].findIndex\<close> is a TypeError when that value is not an array.
\<close>

fun add_loop :: "Wallet list \<Rightarrow> jvalue \<Rightarrow> AddSummary \<Rightarrow> error + (jvalue \<times> AddSummary)" where
  "add_loop [] v s = Inr (v, s)"
| "add_loop (w # ws) v s =
     (if publicKey w = [] then add_loop ws v (s\<lparr>skippedCount := skippedCount s + 1\<rparr>)
      else case v of
          JArray xs \<Rightarrow>
            (let existingIndex = findIndex (\<lambda>x. publicKey x = publicKey w) xs
             in if existingIndex \<ge> 0
                then add_loop ws (JArray (xs[nat existingIndex := w]))
                       (s\<lparr>updatedCount := updatedCount s + 1\<rparr>)
                else add_loop ws (JArray (xs @ [w])) (s\<lparr>newCount := newCount s + 1\<rparr>))
        | JFalsy \<Rightarrow> Inl TypeError
        | JOther \<Rightarrow> Inl TypeError)"

text \<open>
  \<^verbatim>\<open>add\<close> returns nothing; the model returns the summary it logs (\<open>None\<close> on the two early
  returns, which log none). A falsy \<^verbatim>\<open>data[chain]\<close> is replaced by a new empty array, an
  own property of the object. The loop changes the array held under the key in place, so
  the object written back holds the resulting array under the key; when the value under
  the key is not an array the loop changes nothing and the object is written as read.
\<close>

definition add ::
  "string \<Rightarrow> WalletInput \<Rightarrow> JsonStore \<Rightarrow> (error + AddSummary option) \<times> JsonStore" where
  "add chain walletInput st =
     (if chain = [] then (Inr None, st)
      else if walletInput = NoInput then (Inr None, st)
      else case readData st of
          (Inl e, st1) \<Rightarrow> (Inl e, st1)
        | (Inr d, st1) \<Rightarrow>
            (let v0 = (case data_get d chain of None \<Rightarrow> JArray [] | Some JFalsy \<Rightarrow> JArray []
                        | Some v \<Rightarrow> v);
                 wallets = (case walletInput of Many ws \<Rightarrow> ws | Single w \<Rightarrow> [w]
                        | NoInput \<Rightarrow> [])
             in case add_loop wallets v0 \<lparr>newCount = 0, updatedCount = 0, skippedCount = 0\<rparr> of
                 Inl e \<Rightarrow> (Inl e, st1)
               | Inr (v, sm) \<Rightarrow>
                   (case writeData (case v of JArray ys \<Rightarrow> d(chain \<mapsto> v) | _ \<Rightarrow> d) st1 of
                      (Inl e, st2) \<Rightarrow> (Inl e, st2)
                    | (Inr u, st2) \<Rightarrow> (Inr (Some sm), st2))))"

definition count :: "string \<Rightarrow> JsonStore \<Rightarrow> (error + nat) \<times> JsonStore" where
  "count chain st =
     (if chain = [] then (Inr 0, st)
      else case getWallets chain st of
          (Inl e, st1) \<Rightarrow> (Inl e, st1)
        | (Inr ws, st1) \<Rightarrow> (Inr (length ws), st1))"

section \<open>Chain providers (src/wallets/chain-providers)\<close>

text \<open>
  The interface \<^verbatim>\<open>ChainProvider\<close>. A provider talks to a chain and draws random keys, so
  every method takes the state \<open>'s\<close> of that outside world and returns it updated; a
  method that throws returns \<open>Inl\<close>. The type \<open>'n\<close> stands for JavaScript numbers (the
  funding amount), whose floating-point arithmetic is not modelled.
\<close>

record ('n, 's) ChainProvider =
  createWallet :: "string \<Rightarrow> 's \<Rightarrow> (error + Wallet) \<times> 's"
  fundWallet :: "'n \<Rightarrow> Wallet \<Rightarrow> string \<Rightarrow> 's \<Rightarrow> (error + TransactionResult) \<times> 's"
  drainWallet :: "string \<Rightarrow> Wallet \<Rightarrow> 's \<Rightarrow> (error + TransactionResult) \<times> 's"
  getBalance :: "string \<Rightarrow> 's \<Rightarrow> (error + int) \<times> 's"
  getFunderWallet :: Wallet

text \<open>Decimal text of a number, as a template literal prints an integer.\<close>

function string_of_nat :: "nat \<Rightarrow> string" where
  "string_of_nat n =
     (if n < 10 then [''0123456789'' ! n]
      else string_of_nat (n div 10) @ [''0123456789'' ! (n mod 10)])"
  by pat_completeness auto
termination
  by (relation "measure id") auto

declare string_of_nat.simps [simp del]

definition string_of_int :: "int \<Rightarrow> string" where
  "string_of_int i =
     (if i < 0 then ''-'' @ string_of_nat (nat (- i)) else string_of_nat (nat i))"

text \<open>\<^verbatim>\<open>Array.prototype.join(",")\<close> on the decimal texts, as \<^verbatim>\<open>`${Array.from(bytes)}`\<close> prints.\<close>

fun join_comma :: "string list \<Rightarrow> string" where
  "join_comma [] = []"
| "join_comma [x] = x"
| "join_comma (x # y # ys) = x @ '','' @ join_comma (y # ys)"

text \<open>
  \<^verbatim>\<open>createWallet\<close> of both providers. The first argument is the library's key generation
  (\<^verbatim>\<open>ethersWallet.createRandom()\<close>: private key and address; \<^verbatim>\<open>Keypair.generate()\<close>:
  secret key bytes and base58 public key), which may throw.
\<close>

definition EVM_createWallet ::
  "('s \<Rightarrow> (error + string \<times> string) \<times> 's) \<Rightarrow> string \<Rightarrow> 's \<Rightarrow> (error + Wallet) \<times> 's" where
  "EVM_createWallet createRandom al s =
     (case createRandom s of
        (Inl e, s1) \<Rightarrow> (Inl e, s1)
      | (Inr (priv, addr), s1) \<Rightarrow>
          (Inr \<lparr>privateKey = priv, publicKey = addr, alias' = al\<rparr>, s1))"

definition Solana_createWallet ::
  "('s \<Rightarrow> (error + nat list \<times> string) \<times> 's) \<Rightarrow> string \<Rightarrow> 's \<Rightarrow> (error + Wallet) \<times> 's" where
  "Solana_createWallet generate al s =
     (case generate s of
        (Inl e, s1) \<Rightarrow> (Inl e, s1)
      | (Inr (secretKey, pub), s1) \<Rightarrow>
          (Inr \<lparr>privateKey = ''['' @ join_comma (map string_of_nat secretKey) @ '']'',
                publicKey = pub, alias' = al\<rparr>, s1))"

subsection \<open>EVMChainProvider.drainWallet\<close>

record FeeData =
  maxFeePerGas :: "int option"
  gasPrice :: "int option"
  maxPriorityFeePerGas :: "int option"

record EVMTransaction =
  evm_to :: string
  evm_value :: int
  evm_gasLimit :: int
  evm_maxFeePerGas :: int
  evm_maxPriorityFeePerGas :: int

text \<open>
  What the node and the ethers library answer during one call: the address of a private
  key (\<^verbatim>\<open>new ethersWallet\<close> throws on a bad key), a balance, the fee data, the hash of a
  submitted transaction, and the status of its receipt (\<open>None\<close> for a null receipt or
  status).
\<close>

record EVMNetwork =
  addressOfKey :: "string \<Rightarrow> error + string"
  evmBalanceOf :: "string \<Rightarrow> error + int"
  getFeeData :: "error + FeeData"
  sendTransaction :: "string \<Rightarrow> EVMTransaction \<Rightarrow> error + string"
  waitStatus :: "string \<Rightarrow> error + int option"

record EVMChainProviderOptions =
  evm_rpc :: string
  estimatedTransferGasLimit :: int
  evm_funderKey :: string

text \<open>\<^verbatim>\<open>a || b\<close> on values that are a bigint or null: null and 0n are falsy.\<close>

definition js_or :: "int option \<Rightarrow> int option \<Rightarrow> int option" where
  "js_or a b = (case a of None \<Rightarrow> b | Some x \<Rightarrow> if x = 0 then b else Some x)"

text \<open>
  The result is paired with the transactions submitted to the network during the call,
  whether or not the call then returns.
\<close>

definition EVM_drainWallet ::
  "EVMChainProviderOptions \<Rightarrow> EVMNetwork \<Rightarrow> string \<Rightarrow> Wallet
     \<Rightarrow> (error + TransactionResult) \<times> (string \<times> EVMTransaction) list" where
  "EVM_drainWallet opts net recipientAddress wallet =
     (case addressOfKey net (privateKey wallet) of
        Inl e \<Rightarrow> (Inl e, [])
      | Inr sender \<Rightarrow>
      (case evmBalanceOf net sender of
        Inl e \<Rightarrow> (Inl e, [])
      | Inr balance \<Rightarrow>
          if balance \<le> 0
          then (Inr \<lparr>hash = None, successful = False, reason = Some ''wallet balance is 0''\<rparr>, [])
          else
      (case getFeeData net of
        Inl e \<Rightarrow> (Inl e, [])
      | Inr fd \<Rightarrow>
          (let gasLimit = estimatedTransferGasLimit opts;
               maxFee = js_or (maxFeePerGas fd) (gasPrice fd);
               maxPriority = js_or (maxPriorityFeePerGas fd) (Some 0)
           in case maxFee of
               None \<Rightarrow> (Inl (Error ''Could not determine gas price''), [])
             | Some fee \<Rightarrow>
                 if fee = 0 then (Inl (Error ''Could not determine gas price''), [])
                 else
                   (let gasCost = gasLimit * fee;
                        amountToSend = balance - gasCost
                    in if amountToSend \<le> 0
                       then (Inr \<lparr>hash = None, successful = False,
                                  reason = Some ''wallet has insufficient balance to cover the transfer fee''\<rparr>, [])
                       else
                         (let tx = \<lparr>evm_to = recipientAddress, evm_value = amountToSend,
                                    evm_gasLimit = gasLimit, evm_maxFeePerGas = fee,
                                    evm_maxPriorityFeePerGas =
                                      (case maxPriority of None \<Rightarrow> 0 | Some p \<Rightarrow> p)\<rparr>
                          in case sendTransaction net sender tx of
                              Inl e \<Rightarrow> (Inl e, [])
                            | Inr h \<Rightarrow>
                                (case waitStatus net h of
                                   Inl e \<Rightarrow> (Inl e, [(sender, tx)])
                                 | Inr status \<Rightarrow>
                                     (Inr \<lparr>hash = Some h, successful = (status = Some 1),
                                           reason = None\<rparr>, [(sender, tx)]))))))))"

subsection \<open>SolanaChainProvider.drainWallet\<close>

record SolanaTransfer =
  fromPubkey :: string
  toPubkey :: string
  lamports :: int

text \<open>
  What web3.js and the cluster answer during one call: the public key of a secret key
  (\<^verbatim>\<open>JSON.parse\<close> and \<^verbatim>\<open>Keypair.fromSecretKey\<close> throw on a bad key), a balance in
  lamports, the parsed recipient address (\<^verbatim>\<open>new PublicKey\<close> throws), and the signature of
  a sent and confirmed transaction.
\<close>

record SolanaNetwork =
  keypairOfSecret :: "string \<Rightarrow> error + string"
  lamportsOf :: "string \<Rightarrow> error + int"
  parsePublicKey :: "string \<Rightarrow> error + string"
  sendAndConfirmTransaction :: "SolanaTransfer \<Rightarrow> error + string"

record SolanaChainProviderOptions =
  endpoint :: string
  estimatedMinimumFee :: int
  solana_funderKey :: string

definition Solana_drainWallet ::
  "SolanaChainProviderOptions \<Rightarrow> SolanaNetwork \<Rightarrow> string \<Rightarrow> Wallet
     \<Rightarrow> (error + TransactionResult) \<times> SolanaTransfer list" where
  "Solana_drainWallet opts net recipientAddress wallet =
     (case keypairOfSecret net (privateKey wallet) of
        Inl e \<Rightarrow> (Inl e, [])
      | Inr sender \<Rightarrow>
      (case lamportsOf net sender of
        Inl e \<Rightarrow> (Inl e, [])
      | Inr balance \<Rightarrow>
          if balance \<le> 0
          then (Inr \<lparr>hash = None, successful = False, reason = Some ''wallet balance is 0''\<rparr>, [])
          else
            (let minimumFee = estimatedMinimumFee opts
             in if balance \<le> minimumFee
                then (Inr \<lparr>hash = None, successful = False,
                           reason = Some ''wallet has insufficient balance to cover the transfer fee''\<rparr>, [])
                else
                  (let amountToSend = balance - minimumFee
                   in case parsePublicKey net recipientAddress of
                       Inl e \<Rightarrow> (Inl e, [])
                     | Inr rcpt \<Rightarrow>
                         (let tx = \<lparr>fromPubkey = sender, toPubkey = rcpt, lamports = amountToSend\<rparr>
                          in case sendAndConfirmTransaction net tx of
                              Inl e \<Rightarrow> (Inl e, [])
                            | Inr signature \<Rightarrow>
                                (Inr \<lparr>hash = Some signature, successful = (signature \<noteq> []),
                                      reason = None\<rparr>, [tx]))))))"

text \<open>\<^verbatim>\<open>String.prototype.includes\<close>.\<close>

fun includes_str :: "string \<Rightarrow> string \<Rightarrow> bool" where
  "includes_str [] sub = (sub = [])"
| "includes_str (c # cs) sub = (take (length sub) (c # cs) = sub \<or> includes_str cs sub)"

section \<open>Configuration and the provider factory (src/config, chain-providers/factory.ts)\<close>

record NetworkConfig =
  name :: string
  rpc :: string
  explorer :: string
  estimatedTransferFee :: int
  type :: string

text \<open>
  What \<^verbatim>\<open>Config\<close> reads from the configuration file and the process environment; each
  read may throw.
\<close>

record Config =
  getNetworkConfigs :: "error + NetworkConfig list"
  evmFunderPrivateKey :: "error + string"
  solanaFunderPrivateKey :: "error + string"

definition getNetworkConfig :: "Config \<Rightarrow> string \<Rightarrow> error + NetworkConfig" where
  "getNetworkConfig config chain =
     (case getNetworkConfigs config of
        Inl e \<Rightarrow> Inl e
      | Inr networkConfigs \<Rightarrow>
          (case find (\<lambda>p. name p = chain) networkConfigs of
             None \<Rightarrow> Inl (ChainInfoNotFoundError chain)
           | Some res \<Rightarrow> Inr res))"

text \<open>
  \<^verbatim>\<open>Factory.forChain\<close>. The two constructors (which validate the funder key and may
  throw) are arguments.
\<close>

definition Factory_forChain ::
  "Config \<Rightarrow> (EVMChainProviderOptions \<Rightarrow> error + 'p)
     \<Rightarrow> (SolanaChainProviderOptions \<Rightarrow> error + 'p) \<Rightarrow> string \<Rightarrow> error + 'p" where
  "Factory_forChain cfg newEVMChainProvider newSolanaChainProvider chain =
     (case getNetworkConfig cfg chain of
        Inl e \<Rightarrow> Inl e
      | Inr config \<Rightarrow>
          if type config = ''evm'' then
            (case evmFunderPrivateKey cfg of
               Inl e \<Rightarrow> Inl e
             | Inr k \<Rightarrow>
                 newEVMChainProvider
                   \<lparr>evm_rpc = rpc config, estimatedTransferGasLimit = 21000, evm_funderKey = k\<rparr>)
          else if type config = ''solana'' then
            (case solanaFunderPrivateKey cfg of
               Inl e \<Rightarrow> Inl e
             | Inr k \<Rightarrow>
                 newSolanaChainProvider
                   \<lparr>endpoint = rpc config, estimatedMinimumFee = 5000, solana_funderKey = k\<rparr>)
          else Inl (Error (''unsupported chain type '' @ [CHR 0x27] @ type config @ [CHR 0x27]
                     @ '' for chain '' @ [CHR 0x27] @ chain @ [CHR 0x27])))"

section \<open>The command handlers (src/wallets/cli)\<close>

text \<open>
  A handler runs on the store and on the outside world of its provider, and returns both
  updated. The request fields are passed as arguments. Besides its result a handler
  returns the calls it made to the provider, with their outcomes, in the order made.
\<close>

datatype 'n event =
    Balance string "error + int"
  | Fund 'n Wallet string "error + TransactionResult"

subsection \<open>CreateWalletsHandler\<close>

function create_loop ::
  "('n, 's) ChainProvider \<Rightarrow> nat \<Rightarrow> nat \<Rightarrow> nat \<Rightarrow> Wallet list \<Rightarrow> 's
     \<Rightarrow> (error + Wallet list) \<times> 's" where
  "create_loop provider walletCount n i wallets s =
     (if i < n then
        (let walletAlias = ''wallet-'' @ string_of_nat (walletCount + i)
         in case createWallet provider walletAlias s of
             (Inl e, s1) \<Rightarrow> (Inl e, s1)
           | (Inr wallet, s1) \<Rightarrow> create_loop provider walletCount n (i + 1) (wallets @ [wallet]) s1)
      else (Inr wallets, s))"
  by pat_completeness auto
termination
  by (relation "measure (\<lambda>(provider, walletCount, n, i, wallets, s). n - i)") auto

declare create_loop.simps [simp del]

text \<open>The handler returns the wallets it created and stored (its local \<^verbatim>\<open>wallets\<close>).\<close>

definition CreateWalletsHandler_handle ::
  "(string \<Rightarrow> error + ('n, 's) ChainProvider) \<Rightarrow> string \<Rightarrow> nat \<Rightarrow> JsonStore \<times> 's
     \<Rightarrow> (error + Wallet list) \<times> JsonStore \<times> 's" where
  "CreateWalletsHandler_handle forChain chain n world =
     (case world of (st, s) \<Rightarrow>
      (case count chain st of
         (Inl e, st1) \<Rightarrow> (Inl e, st1, s)
       | (Inr walletCount, st1) \<Rightarrow>
      (case forChain chain of
         Inl e \<Rightarrow> (Inl e, st1, s)
       | Inr provider \<Rightarrow>
      (case create_loop provider walletCount n 0 [] s of
         (Inl e, s1) \<Rightarrow> (Inl e, st1, s1)
       | (Inr wallets, s1) \<Rightarrow>
      (case add chain (Many wallets) st1 of
         (Inl e, st2) \<Rightarrow> (Inl e, st2, s1)
       | (Inr summary, st2) \<Rightarrow> (Inr wallets, st2, s1))))))"

subsection \<open>GetBalancesHandler\<close>

record BalancesSummary =
  totalBalance :: int
  zeroBalanceCount :: nat

fun balances_loop ::
  "('n, 's) ChainProvider \<Rightarrow> Wallet list \<Rightarrow> int \<Rightarrow> nat \<Rightarrow> 's
     \<Rightarrow> BalancesSummary \<times> 's \<times> 'n event list" where
  "balances_loop provider [] tb zc s =
     (\<lparr>totalBalance = tb, zeroBalanceCount = zc\<rparr>, s, [])"
| "balances_loop provider (wallet # ws) tb zc s =
     (case getBalance provider (publicKey wallet) s of
        (Inr balance, s1) \<Rightarrow>
          (case balances_loop provider ws (tb + balance)
                  (if balance = 0 then zc + 1 else zc) s1 of
             (r, s2, t) \<Rightarrow> (r, s2, Balance (publicKey wallet) (Inr balance) # t))
      | (Inl e, s1) \<Rightarrow>
          (case balances_loop provider ws tb zc s1 of
             (r, s2, t) \<Rightarrow> (r, s2, Balance (publicKey wallet) (Inl e) # t)))"

definition GetBalancesHandler_handle ::
  "(string \<Rightarrow> error + ('n, 's) ChainProvider) \<Rightarrow> string \<Rightarrow> JsonStore \<times> 's
     \<Rightarrow> (error + BalancesSummary) \<times> JsonStore \<times> 's \<times> 'n event list" where
  "GetBalancesHandler_handle forChain chain world =
     (case world of (st, s) \<Rightarrow>
      (case forChain chain of
         Inl e \<Rightarrow> (Inl e, st, s, [])
       | Inr provider \<Rightarrow>
      (case getWallets chain st of
         (Inl e, st1) \<Rightarrow> (Inl e, st1, s, [])
       | (Inr wallets, st1) \<Rightarrow>
      (case balances_loop provider wallets 0 0 s of
         (r, s1, t) \<Rightarrow> (Inr r, st1, s1, t)))))"

subsection \<open>FundWalletsHandler\<close>

record FundSummary =
  fundedCount :: nat
  skippedCount' :: nat

text \<open>
  \<^verbatim>\<open>BigInt(Math.floor(x * 1e9))\<close> and \<^verbatim>\<open>BigInt(Math.floor(x * 1e18))\<close>: the handler takes the
  floating-point conversion \<open>toBigInt x scale\<close> as an argument; it is \<open>None\<close> where
  \<^verbatim>\<open>BigInt\<close> throws a RangeError (the product is NaN or infinite).
\<close>

definition chainUnits :: "('n \<Rightarrow> int \<Rightarrow> int option) \<Rightarrow> string \<Rightarrow> 'n \<Rightarrow> int option" where
  "chainUnits toBigInt chain x =
     (if chain = ''solana'' then toBigInt x (10 ^ 9) else toBigInt x (10 ^ 18))"

fun fund_loop ::
  "('n, 's) ChainProvider \<Rightarrow> ('n \<Rightarrow> int \<Rightarrow> int option) \<Rightarrow> string \<Rightarrow> 'n \<Rightarrow> 'n \<Rightarrow> Wallet
     \<Rightarrow> Wallet list \<Rightarrow> FundSummary \<Rightarrow> 's \<Rightarrow> (error + FundSummary) \<times> 's \<times> 'n event list" where
  "fund_loop provider toBigInt chain amount minBalance funder [] sm s = (Inr sm, s, [])"
| "fund_loop provider toBigInt chain amount minBalance funder (wallet # ws) sm s =
     (case getBalance provider (publicKey wallet) s of
        (Inl e, s1) \<Rightarrow> (Inl e, s1, [Balance (publicKey wallet) (Inl e)])
      | (Inr walletBalance, s1) \<Rightarrow>
          (case chainUnits toBigInt chain minBalance of
             None \<Rightarrow> (Inl RangeError, s1, [Balance (publicKey wallet) (Inr walletBalance)])
           | Some minBalanceInChainUnits \<Rightarrow>
               if walletBalance \<ge> minBalanceInChainUnits
               then
                 (case fund_loop provider toBigInt chain amount minBalance funder ws
                         (sm\<lparr>skippedCount' := skippedCount' sm + 1\<rparr>) s1 of
                    (r, s2, t) \<Rightarrow> (r, s2, Balance (publicKey wallet) (Inr walletBalance) # t))
               else
                 (case fundWallet provider amount funder (publicKey wallet) s1 of
                    (res, s2) \<Rightarrow>
                      (case fund_loop provider toBigInt chain amount minBalance funder ws
                              (case res of
                                 Inr result \<Rightarrow>
                                   if successful result
                                   then sm\<lparr>fundedCount := fundedCount sm + 1\<rparr> else sm
                               | Inl e \<Rightarrow> sm) s2 of
                         (r, s3, t) \<Rightarrow>
                           (r, s3, Balance (publicKey wallet) (Inr walletBalance)
                                     # Fund amount funder (publicKey wallet) res # t)))))"

definition FundWalletsHandler_handle ::
  "(string \<Rightarrow> error + ('n, 's) ChainProvider) \<Rightarrow> ('n \<Rightarrow> int \<Rightarrow> int option) \<Rightarrow> string \<Rightarrow> 'n \<Rightarrow> 'n
     \<Rightarrow> JsonStore \<times> 's \<Rightarrow> (error + FundSummary) \<times> JsonStore \<times> 's \<times> 'n event list" where
  "FundWalletsHandler_handle forChain toBigInt chain amount minBalance world =
     (case world of (st, s) \<Rightarrow>
      (case forChain chain of
         Inl e \<Rightarrow> (Inl e, st, s, [])
       | Inr provider \<Rightarrow>
      (case getWallets chain st of
         (Inl e, st1) \<Rightarrow> (Inl e, st1, s, [])
       | (Inr wallets, st1) \<Rightarrow>
          (let funder = getFunderWallet provider
           in case chainUnits toBigInt chain amount of
               None \<Rightarrow> (Inl RangeError, st1, s, [])
             | Some a \<Rightarrow>
                 (let required = a * int (length wallets)
                  in case getBalance provider (publicKey funder) s of
                      (Inl e, s1) \<Rightarrow> (Inl e, st1, s1, [Balance (publicKey funder) (Inl e)])
                    | (Inr balance, s1) \<Rightarrow>
                        if required > balance
                        then (Inl (Error (''Funder '' @ publicKey funder @ '' balance of ''
                                    @ string_of_int balance
                                    @ '' is less than the required funding amount of ''
                                    @ string_of_int required)),
                              st1, s1, [Balance (publicKey funder) (Inr balance)])
                        else
                          (case fund_loop provider toBigInt chain amount minBalance funder wallets
                                  \<lparr>fundedCount = 0, skippedCount' = 0\<rparr> s1 of
                             (r, s2, t) \<Rightarrow>
                               (r, st1, s2, Balance (publicKey funder) (Inr balance) # t)))))))"

subsection \<open>DrainWalletsHandler\<close>

record DrainSummary =
  successCount :: nat
  failureCount :: nat
  zeroBalanceCount' :: nat
  insufficientBalanceCount :: nat

text \<open>
  The events of a drain: the call for the wallet at a registry index is issued by the
  batch with the given number, and that call settles with its outcome.
\<close>

datatype drain_event =
    Issued nat nat
  | Resolved nat nat "error + TransactionResult"

definition concurrencyLimit :: nat where
  "concurrencyLimit = 20"

text \<open>The \<^verbatim>\<open>then\<close> and \<^verbatim>\<open>catch\<close> callbacks attached to one call.\<close>

definition settle :: "error + TransactionResult \<Rightarrow> DrainSummary \<Rightarrow> DrainSummary" where
  "settle r sm =
     (case r of
        Inl e \<Rightarrow> sm\<lparr>failureCount := failureCount sm + 1\<rparr>
      | Inr result \<Rightarrow>
          if successful result then sm\<lparr>successCount := successCount sm + 1\<rparr>
          else
            (let sm1 = sm\<lparr>failureCount := failureCount sm + 1\<rparr>
             in case reason result of
                 None \<Rightarrow> sm1
               | Some rs \<Rightarrow>
                   if includes_str rs ''balance is 0''
                   then sm1\<lparr>zeroBalanceCount' := zeroBalanceCount' sm1 + 1\<rparr>
                   else if includes_str rs ''insufficient balance''
                   then sm1\<lparr>insufficientBalanceCount := insufficientBalanceCount sm1 + 1\<rparr>
                   else sm1))"

text \<open>
  The calls of one batch run concurrently and settle in an order the code does not fix.
  The model takes the time each call needs (\<open>latency\<close>, by registry index) and settles the
  calls of a batch in the order of that time; the effect of a call on the chain and its
  callback are taken when it settles.
\<close>

fun settle_all ::
  "('n, 's) ChainProvider \<Rightarrow> string \<Rightarrow> nat \<Rightarrow> (nat \<times> Wallet) list \<Rightarrow> DrainSummary \<Rightarrow> 's
     \<Rightarrow> DrainSummary \<times> 's \<times> drain_event list" where
  "settle_all provider recipient batchNumber [] sm s = (sm, s, [])"
| "settle_all provider recipient batchNumber ((j, wallet) # rest) sm s =
     (case drainWallet provider recipient wallet s of
        (r, s1) \<Rightarrow>
          (case settle_all provider recipient batchNumber rest (settle r sm) s1 of
             (sm2, s2, t) \<Rightarrow> (sm2, s2, Resolved batchNumber j r # t)))"

function drain_loop ::
  "('n, 's) ChainProvider \<Rightarrow> (nat \<Rightarrow> nat) \<Rightarrow> string \<Rightarrow> Wallet list \<Rightarrow> nat \<Rightarrow> DrainSummary \<Rightarrow> 's
     \<Rightarrow> DrainSummary \<times> 's \<times> drain_event list" where
  "drain_loop provider latency recipient wallets i sm s =
     (if i < length wallets then
        (let batch = take concurrencyLimit (drop i wallets);
             batchNumber = i div concurrencyLimit + 1;
             calls = zip [i ..< i + length batch] batch
         in case settle_all provider recipient batchNumber
                   (sort_key (\<lambda>c. latency (fst c)) calls) sm s of
             (sm1, s1, t1) \<Rightarrow>
               (case drain_loop provider latency recipient wallets (i + concurrencyLimit) sm1 s1 of
                  (sm2, s2, t2) \<Rightarrow>
                    (sm2, s2, map (\<lambda>c. Issued batchNumber (fst c)) calls @ t1 @ t2)))
      else (sm, s, []))"
  by pat_completeness auto
termination
  by (relation "measure (\<lambda>(provider, latency, recipient, wallets, i, sm, s). length wallets - i)")
     (auto simp: concurrencyLimit_def)

declare drain_loop.simps [simp del]

definition DrainWalletsHandler_handle ::
  "(string \<Rightarrow> error + ('n, 's) ChainProvider) \<Rightarrow> (nat \<Rightarrow> nat) \<Rightarrow> string \<Rightarrow> JsonStore \<times> 's
     \<Rightarrow> (error + DrainSummary) \<times> JsonStore \<times> 's \<times> drain_event list" where
  "DrainWalletsHandler_handle forChain latency chain world =
     (case world of (st, s) \<Rightarrow>
      (case forChain chain of
         Inl e \<Rightarrow> (Inl e, st, s, [])
       | Inr provider \<Rightarrow>
      (case getWallets chain st of
         (Inl e, st1) \<Rightarrow> (Inl e, st1, s, [])
       | (Inr wallets, st1) \<Rightarrow>
          (let funder = getFunderWallet provider
           in case drain_loop provider latency (publicKey funder) wallets 0
                     \<lparr>successCount = 0, failureCount = 0, zeroBalanceCount' = 0,
                      insufficientBalanceCount = 0\<rparr> s of
               (sm, s1, t) \<Rightarrow> (Inr sm, st1, s1, t)))))"

section \<open>Reading the event lists\<close>

text \<open>The address a provider call was made for.\<close>

primrec event_address :: "'n event \<Rightarrow> string" where
  "event_address (Balance a r) = a"
| "event_address (Fund n f a r) = a"

text \<open>The balances that were observed: the outcomes of the balance queries that returned.\<close>

fun observed :: "'n event list \<Rightarrow> int list" where
  "observed [] = []"
| "observed (Balance a (Inr b) # t) = b # observed t"
| "observed (e # t) = observed t"

text \<open>The calls issued during a drain, as pairs of batch number and registry index.\<close>

fun issued_calls :: "drain_event list \<Rightarrow> (nat \<times> nat) list" where
  "issued_calls [] = []"
| "issued_calls (Issued k j # t) = (k, j) # issued_calls t"
| "issued_calls (e # t) = issued_calls t"

text \<open>
  The addresses \<open>fundWallet\<close> was called for, and the balance queries that returned, with
  their answers.
\<close>

fun funded :: "'n event list \<Rightarrow> string list" where
  "funded [] = []"
| "funded (Fund n f a r # t) = a # funded t"
| "funded (e # t) = funded t"

fun queried :: "'n event list \<Rightarrow> (string \<times> int) list" where
  "queried [] = []"
| "queried (Balance a (Inr b) # t) = (a, b) # queried t"
| "queried (e # t) = queried t"

text \<open>
  The outcome of \<open>n\<close> successive key generations from a state: the keys generated, in
  order, or the first error.
\<close>

primrec generations ::
  "('s \<Rightarrow> (error + 'k) \<times> 's) \<Rightarrow> nat \<Rightarrow> 's \<Rightarrow> (error + 'k list) \<times> 's" where
  "generations g 0 s = (Inr [], s)"
| "generations g (Suc n) s =
     (case g s of
        (Inl e, s1) \<Rightarrow> (Inl e, s1)
      | (Inr k, s1) \<Rightarrow>
          (case generations g n s1 of
             (Inl e, s2) \<Rightarrow> (Inl e, s2)
           | (Inr ks, s2) \<Rightarrow> (Inr (k # ks), s2)))"

section \<open>Concrete inputs\<close>

text \<open>Small stores and wallets on which the theorems below are instantiated.\<close>

abbreviation (input) ex_wA :: Wallet where
  "ex_wA \<equiv> \<lparr>privateKey = ''k1'', publicKey = ''0xA'', alias' = ''wallet-0''\<rparr>"

abbreviation (input) ex_wB :: Wallet where
  "ex_wB \<equiv> \<lparr>privateKey = ''k2'', publicKey = ''0xB'', alias' = ''wallet-1''\<rparr>"

abbreviation (input) ex_store :: JsonStore where
  "ex_store \<equiv> \<lparr>initialized = False,
     dataFile = Parsed [''eth'' \<mapsto> JArray [ex_wA, ex_wB], ''bad'' \<mapsto> JOther],
     canRead = True, canWrite = True\<rparr>"

abbreviation (input) ex_nonlist :: JsonStore where
  "ex_nonlist \<equiv> \<lparr>initialized = False, dataFile = Parsed [''eth'' \<mapsto> JOther],
     canRead = True, canWrite = True\<rparr>"

abbreviation (input) ex_fresh :: JsonStore where
  "ex_fresh \<equiv> \<lparr>initialized = False, dataFile = NoFile, canRead = True, canWrite = True\<rparr>"

abbreviation (input) ex_corrupt :: JsonStore where
  "ex_corrupt \<equiv> \<lparr>initialized = False, dataFile = Corrupt, canRead = True, canWrite = True\<rparr>"

abbreviation (input) ex_wA2 :: Wallet where
  "ex_wA2 \<equiv> \<lparr>privateKey = ''k9'', publicKey = ''0xA'', alias' = ''renamed''\<rparr>"

abbreviation (input) ex_wC :: Wallet where
  "ex_wC \<equiv> \<lparr>privateKey = ''k3'', publicKey = ''0xC'', alias' = ''wallet-2''\<rparr>"

abbreviation (input) ex_wE :: Wallet where
  "ex_wE \<equiv> \<lparr>privateKey = ''k4'', publicKey = [], alias' = ''wallet-3''\<rparr>"

definition replay_provider :: "('n, (error + int) list) ChainProvider" where
  "replay_provider =
     \<lparr>createWallet = (\<lambda>al s. (Inl (Error ''unused''), s)),
      fundWallet = (\<lambda>n f a s. (Inl (Error ''unused''), s)),
      drainWallet = (\<lambda>a w s. (Inl (Error ''unused''), s)),
      getBalance = (\<lambda>a s. case s of [] \<Rightarrow> (Inl (Error ''no answer''), []) | r # rs \<Rightarrow> (r, rs)),
      getFunderWallet = \<lparr>privateKey = ''fk'', publicKey = ''F'', alias' = ''funder''\<rparr>\<rparr>"

abbreviation (input) ex_w :: "string \<Rightarrow> Wallet" where
  "ex_w a \<equiv> \<lparr>privateKey = ''k'', publicKey = a, alias' = ''w''\<rparr>"

abbreviation (input) ex_store5 :: JsonStore where
  "ex_store5 \<equiv> \<lparr>initialized = False,
     dataFile = Parsed [''eth'' \<mapsto> JArray [ex_w ''a1'', ex_w ''a2'', ex_w ''a3'', ex_w ''a4'', ex_w ''a5'']],
     canRead = True, canWrite = True\<rparr>"

abbreviation (input) zero_balance_result :: TransactionResult where
  "zero_balance_result \<equiv> \<lparr>hash = None, successful = False, reason = Some ''wallet balance is 0''\<rparr>"

abbreviation (input) insufficient_result :: TransactionResult where
  "insufficient_result \<equiv>
     \<lparr>hash = None, successful = False,
      reason = Some ''wallet has insufficient balance to cover the transfer fee''\<rparr>"

abbreviation (input) ex_en :: "int \<Rightarrow> EVMNetwork" where
  "ex_en b \<equiv>
     \<lparr>addressOfKey = (\<lambda>k. Inr ''0xS''), evmBalanceOf = (\<lambda>a. Inr b),
      getFeeData = Inr \<lparr>maxFeePerGas = Some 30, gasPrice = None, maxPriorityFeePerGas = None\<rparr>,
      sendTransaction = (\<lambda>a tx. Inr ''0xhash''), waitStatus = (\<lambda>h. Inr (Some 1))\<rparr>"

abbreviation (input) ex_eo :: EVMChainProviderOptions where
  "ex_eo \<equiv> \<lparr>evm_rpc = ''http://rpc'', estimatedTransferGasLimit = 21000, evm_funderKey = ''fk''\<rparr>"

abbreviation (input) ex_sn :: "int \<Rightarrow> SolanaNetwork" where
  "ex_sn b \<equiv>
     \<lparr>keypairOfSecret = (\<lambda>k. Inr ''So1''), lamportsOf = (\<lambda>a. Inr b),
      parsePublicKey = (\<lambda>a. Inr a), sendAndConfirmTransaction = (\<lambda>tx. Inr ''sig'')\<rparr>"

abbreviation (input) ex_so :: SolanaChainProviderOptions where
  "ex_so \<equiv> \<lparr>endpoint = ''http://rpc'', estimatedMinimumFee = 5000, solana_funderKey = ''[1]''\<rparr>"

abbreviation (input) ex_createRandom :: "nat \<Rightarrow> (error + string \<times> string) \<times> nat" where
  "ex_createRandom \<equiv> \<lambda>k. (Inr (if k = 0 then (''pa'', ''0xN0'') else (''pb'', ''0xN1'')), Suc k)"

abbreviation (input) ex_creator :: "(nat, nat) ChainProvider" where
  "ex_creator \<equiv>
     \<lparr>createWallet = EVM_createWallet ex_createRandom,
      fundWallet = (\<lambda>n f a s. (Inl (Error ''unused''), s)),
      drainWallet = (\<lambda>a w s. (Inl (Error ''unused''), s)),
      getBalance = (\<lambda>a s. (Inr 0, s)),
      getFunderWallet = \<lparr>privateKey = ''fk'', publicKey = ''F'', alias' = ''funder''\<rparr>\<rparr>"

abbreviation (input) ex_generate :: "nat \<Rightarrow> (error + nat list \<times> string) \<times> nat" where
  "ex_generate \<equiv> \<lambda>k. (Inr (if k = 0 then ([7, 0], ''So1'') else ([1, 3], ''So2'')), Suc k)"

abbreviation (input) ex_solana_creator :: "(nat, nat) ChainProvider" where
  "ex_solana_creator \<equiv>
     \<lparr>createWallet = Solana_createWallet ex_generate,
      fundWallet = (\<lambda>n f a s. (Inl (Error ''unused''), s)),
      drainWallet = (\<lambda>a w s. (Inl (Error ''unused''), s)),
      getBalance = (\<lambda>a s. (Inr 0, s)),
      getFunderWallet = \<lparr>privateKey = ''[1]'', publicKey = ''F'', alias' = ''solana-funder''\<rparr>\<rparr>"

abbreviation (input) ex_store3 :: JsonStore where
  "ex_store3 \<equiv> \<lparr>initialized = False,
     dataFile = Parsed [''eth'' \<mapsto> JArray [ex_wA, ex_wB, ex_wC]],
     canRead = True, canWrite = True\<rparr>"

abbreviation (input) ex_drainer :: "(nat, unit) ChainProvider" where
  "ex_drainer \<equiv>
     \<lparr>createWallet = (\<lambda>al s. (Inl (Error ''unused''), s)),
      fundWallet = (\<lambda>n f a s. (Inl (Error ''unused''), s)),
      drainWallet = (\<lambda>a w s. (Inr \<lparr>hash = None, successful = False,
                                  reason = Some ''wallet balance is 0''\<rparr>, s)),
      getBalance = (\<lambda>a s. (Inr 0, s)),
      getFunderWallet = \<lparr>privateKey = ''fk'', publicKey = ''F'', alias' = ''funder''\<rparr>\<rparr>"

abbreviation (input) ex_store45 :: JsonStore where
  "ex_store45 \<equiv> \<lparr>initialized = False,
     dataFile = Parsed [''eth'' \<mapsto> JArray (replicate 45 ex_wA)],
     canRead = True, canWrite = True\<rparr>"

text \<open>
  A configuration that lists one network, of type solana, under the name solana-devnet; a
  provider for it that keeps balances in lamports; and the conversion of the number
  \<open>p / 2 ^ k\<close>, written \<open>(p, k)\<close>. For the amounts used below (\<open>1\<close> and \<open>2 ^ -20\<close>) the
  floating-point products with \<open>1e9\<close> and \<open>1e18\<close> are exact, so this is the conversion the
  code makes.
\<close>

abbreviation (input) ex_toBigInt :: "int \<times> nat \<Rightarrow> int \<Rightarrow> int option" where
  "ex_toBigInt \<equiv> \<lambda>x scale. Some (fst x * scale div 2 ^ snd x)"

definition ex_solana :: "(int \<times> nat, string \<Rightarrow> int) ChainProvider" where
  "ex_solana =
     \<lparr>createWallet = (\<lambda>al s. (Inl (Error ''unused''), s)),
      fundWallet = (\<lambda>amount funder recipient s.
         (Inr \<lparr>hash = Some ''sig'', successful = True, reason = None\<rparr>,
          s(publicKey funder := s (publicKey funder) - fst amount * 10 ^ 9 div 2 ^ snd amount,
            recipient := s recipient + fst amount * 10 ^ 9 div 2 ^ snd amount))),
      drainWallet = (\<lambda>a w s. (Inl (Error ''unused''), s)),
      getBalance = (\<lambda>a s. (Inr (s a), s)),
      getFunderWallet = \<lparr>privateKey = ''[1]'', publicKey = ''F'', alias' = ''solana-funder''\<rparr>\<rparr>"

definition ex_cfg :: Config where
  "ex_cfg =
     \<lparr>getNetworkConfigs =
        Inr [\<lparr>name = ''solana-devnet'', rpc = ''https://api.devnet.solana.com'', explorer = [],
              estimatedTransferFee = 5000, type = ''solana''\<rparr>],
      evmFunderPrivateKey = Inr ''0xkey'', solanaFunderPrivateKey = Inr ''[1]''\<rparr>"

definition ex_forChain ::
  "string \<Rightarrow> error + (int \<times> nat, string \<Rightarrow> int) ChainProvider" where
  "ex_forChain =
     Factory_forChain ex_cfg (\<lambda>opts. Inl (Error ''no EVM chain configured''))
       (\<lambda>opts. Inr ex_solana)"

abbreviation (input) ex_store_devnet :: "string list \<Rightarrow> JsonStore" where
  "ex_store_devnet as \<equiv> \<lparr>initialized = False,
     dataFile = Parsed [''solana-devnet'' \<mapsto> JArray (map ex_w as)],
     canRead = True, canWrite = True\<rparr>"


section \<open>The store: lemmas\<close>

lemma findIndex_ge: "- 1 \<le> findIndex P xs"
  by (induction xs) (auto simp: Let_def)

lemma findIndex_neg_iff: "findIndex P xs < 0 \<longleftrightarrow> \<not> list_ex P xs"
proof (induction xs)
  case Nil
  then show ?case by simp
next
  case (Cons x xs)
  then show ?case using findIndex_ge [of P xs] by (auto simp: Let_def)
qed

lemma findIndex_first:
  "0 \<le> findIndex P xs \<Longrightarrow>
     nat (findIndex P xs) < length xs \<and> P (xs ! nat (findIndex P xs)) \<and>
     (\<forall>j < nat (findIndex P xs). \<not> P (xs ! j))"
proof (induction xs)
  case Nil
  then show ?case by simp
next
  case (Cons x xs)
  show ?case
  proof (cases "P x")
    case True
    then show ?thesis by simp
  next
    case False
    with Cons.prems have nn: "0 \<le> findIndex P xs"
      by (auto simp: Let_def split: if_splits)
    from Cons.IH [OF nn] False nn show ?thesis
      by (auto simp: Let_def nat_add_distrib nth_Cons split: nat.splits)
  qed
qed

lemma initialize_initialized [simp]: "initialized st \<Longrightarrow> initialize st = (Inr (), st)"
  by (simp add: initialize_def)

lemma readData_Inr:
  assumes "readData st = (Inr d, st1)"
  shows "initialized st1 \<and> canRead st1 \<and> canWrite st1 = canWrite st \<and>
         (dataFile st1 = Parsed d \<or> (dataFile st1 = ParsedFalsy \<and> d = Map.empty))"
  using assms
  by (cases "dataFile st")
     (auto simp: readData_def initialize_def split: if_splits)

lemma readData_Inl:
  assumes "readData st = (Inl e, st1)"
  shows "e = IOError \<and> readData st1 = (Inl IOError, st1)"
  using assms
  by (cases "dataFile st")
     (auto simp: readData_def initialize_def split: if_splits)

lemma readData_stable:
  assumes "initialized st" "canRead st"
    and "dataFile st = Parsed d \<or> (dataFile st = ParsedFalsy \<and> d = Map.empty)"
  shows "readData st = (Inr d, st)"
  using assms by (auto simp: readData_def)

lemma readData_idem: "readData st = (Inr d, st1) \<Longrightarrow> readData st1 = (Inr d, st1)"
  using readData_Inr [of st d st1] readData_stable [of st1 d] by blast

lemma writeData_initialized:
  "initialized st \<Longrightarrow>
   writeData d st = (if canWrite st then (Inr (), st\<lparr>dataFile := Parsed d\<rparr>) else (Inl IOError, st))"
  by (simp add: writeData_def)


lemma getWallets_read_Inl:
  assumes "readData st = (Inl e, st1)"
  shows "fst (getWallets c st1) = fst (getWallets c st)"
  using assms readData_Inl [OF assms] by (simp add: getWallets_def)

lemma getWallets_read_Inr:
  assumes "readData st = (Inr d, st1)"
  shows "fst (getWallets c st1) = fst (getWallets c st)"
  using assms readData_idem [OF assms] by (simp add: getWallets_def)

lemma getWallets_written:
  assumes "initialized st" "canRead st" "c \<noteq> []"
  shows "fst (getWallets c (st\<lparr>dataFile := Parsed d\<rparr>)) =
           Inr (case data_get d c of Some (JArray ws) \<Rightarrow> ws | _ \<Rightarrow> [])"
  using assms by (simp add: getWallets_def readData_def)

lemma getWallets_of_read:
  assumes "readData st = (Inr d, st1)" "c \<noteq> []"
  shows "fst (getWallets c st) = Inr (case data_get d c of Some (JArray ws) \<Rightarrow> ws | _ \<Rightarrow> [])"
  using assms by (simp add: getWallets_def)

lemma data_get_upd_same [simp]: "data_get (d(c \<mapsto> v)) c = Some v"
  by (simp add: data_get_def)

lemma data_get_upd_other [simp]: "c' \<noteq> c \<Longrightarrow> data_get (d(c \<mapsto> v)) c' = data_get d c'"
  by (simp add: data_get_def)

lemma data_get_array: "data_get d c = Some (JArray xs) \<longleftrightarrow> d c = Some (JArray xs)"
  by (auto simp: data_get_def split: option.splits)

lemma data_get_written_other:
  "c' \<noteq> c \<Longrightarrow> data_get (case v of JArray ys \<Rightarrow> d(c \<mapsto> v) | _ \<Rightarrow> d) c' = data_get d c'"
  by (cases v) simp_all

lemma data_get_not_array:
  "d c = None \<or> d c = Some JFalsy \<or> d c = Some JOther \<Longrightarrow>
   (case data_get d c of Some (JArray ws) \<Rightarrow> ws | _ \<Rightarrow> []) = []"
  by (auto simp: data_get_def)

lemma data_get_written_same:
  assumes "v = (case data_get d c of None \<Rightarrow> JArray [] | Some JFalsy \<Rightarrow> JArray []
                | Some v \<Rightarrow> v)"
  shows "(case data_get (case v of JArray ys \<Rightarrow> d(c \<mapsto> v) | _ \<Rightarrow> d) c of
            Some (JArray ws) \<Rightarrow> ws | _ \<Rightarrow> []) =
         (case data_get d c of Some (JArray ws) \<Rightarrow> ws | _ \<Rightarrow> [])"
proof (cases "data_get d c")
  case None
  with assms show ?thesis by simp
next
  case (Some u)
  with assms show ?thesis by (cases u) simp_all
qed

text \<open>The shape of every run of add.\<close>

lemma add_cases:
  obtains (early) "chain = [] \<or> walletInput = NoInput" "add chain walletInput st = (Inr None, st)"
  | (read_fails) e st1 where "readData st = (Inl e, st1)" "add chain walletInput st = (Inl e, st1)"
  | (loop_fails) d st1 e where "chain \<noteq> []" "readData st = (Inr d, st1)"
      "add chain walletInput st = (Inl e, st1)"
  | (write_fails) d st1 where "chain \<noteq> []" "readData st = (Inr d, st1)" "\<not> canWrite st1"
      "add chain walletInput st = (Inl IOError, st1)"
  | (stored) d st1 v sm where "chain \<noteq> []" "walletInput \<noteq> NoInput"
      "readData st = (Inr d, st1)" "canWrite st1"
      "add_loop (case walletInput of Many ws \<Rightarrow> ws | Single w \<Rightarrow> [w] | NoInput \<Rightarrow> [])
         (case data_get d chain of None \<Rightarrow> JArray [] | Some JFalsy \<Rightarrow> JArray []
          | Some v \<Rightarrow> v)
         \<lparr>newCount = 0, updatedCount = 0, skippedCount = 0\<rparr> = Inr (v, sm)"
      "add chain walletInput st =
         (Inr (Some sm),
          st1\<lparr>dataFile := Parsed (case v of JArray ys \<Rightarrow> d(chain \<mapsto> v) | _ \<Rightarrow> d)\<rparr>)"
proof (cases "chain = [] \<or> walletInput = NoInput")
  case True
  then have "add chain walletInput st = (Inr None, st)" by (auto simp: add_def)
  with True show ?thesis by (rule early)
next
  case False
  then have ne: "chain \<noteq> []" "walletInput \<noteq> NoInput" by auto
  obtain r st1 where rd: "readData st = (r, st1)" by (cases "readData st")
  show ?thesis
  proof (cases r)
    case (Inl e)
    with rd ne have "add chain walletInput st = (Inl e, st1)" by (simp add: add_def)
    with rd Inl show ?thesis by (auto intro: read_fails)
  next
    case (Inr d)
    with rd have rd': "readData st = (Inr d, st1)" by simp
    from readData_Inr [OF rd'] have init: "initialized st1" by simp
    let ?ws = "case walletInput of Many ws \<Rightarrow> ws | Single w \<Rightarrow> [w] | NoInput \<Rightarrow> []"
    let ?v0 = "case data_get d chain of None \<Rightarrow> JArray [] | Some JFalsy \<Rightarrow> JArray []
               | Some v \<Rightarrow> v"
    let ?l = "add_loop ?ws ?v0 \<lparr>newCount = 0, updatedCount = 0, skippedCount = 0\<rparr>"
    show ?thesis
    proof (cases ?l)
      case (Inl e)
      with rd' ne have "add chain walletInput st = (Inl e, st1)"
        by (simp add: add_def Let_def)
      with rd' ne show ?thesis by (auto intro: loop_fails)
    next
      case (Inr p)
      obtain v sm where p: "p = (v, sm)" by (cases p)
      show ?thesis
      proof (cases "canWrite st1")
        case True
        with rd' ne Inr p init
        have "add chain walletInput st =
            (Inr (Some sm),
             st1\<lparr>dataFile := Parsed (case v of JArray ys \<Rightarrow> d(chain \<mapsto> v) | _ \<Rightarrow> d)\<rparr>)"
          by (simp add: add_def Let_def writeData_initialized)
        with rd' ne Inr p True show ?thesis by (auto intro: stored)
      next
        case False
        with rd' ne Inr p init
        have "add chain walletInput st = (Inl IOError, st1)"
          by (simp add: add_def Let_def writeData_initialized)
        with rd' ne False show ?thesis by (auto intro: write_fails)
      qed
    qed
  qed
qed


lemma add_loop_filter:
  "map_sum id fst (add_loop ws v s) =
   map_sum id fst (add_loop (filter (\<lambda>w. publicKey w \<noteq> []) ws) v s')"
proof (induction ws arbitrary: v s s')
  case Nil
  then show ?case by simp
next
  case (Cons w ws)
  show ?case
  proof (cases "publicKey w = []")
    case True
    then show ?thesis using Cons.IH by simp
  next
    case False
    then show ?thesis using Cons.IH by (cases v) (simp_all add: Let_def)
  qed
qed

lemma add_loop_skipped:
  "add_loop ws v s = Inr (v', s') \<Longrightarrow>
   skippedCount s' = skippedCount s + length (filter (\<lambda>w. publicKey w = []) ws)"
proof (induction ws arbitrary: v s)
  case Nil
  then show ?case by simp
next
  case (Cons w ws)
  show ?case
  proof (cases "publicKey w = []")
    case True
    with Cons.prems have "add_loop ws v (s\<lparr>skippedCount := skippedCount s + 1\<rparr>) = Inr (v', s')"
      by simp
    from Cons.IH [OF this] True show ?thesis by simp
  next
    case False
    show ?thesis
    proof (cases v)
      case (JArray xs)
      let ?i = "findIndex (\<lambda>x. publicKey x = publicKey w) xs"
      show ?thesis
      proof (cases "0 \<le> ?i")
        case True
        with Cons.prems False JArray
        have "add_loop ws (JArray (xs[nat ?i := w])) (s\<lparr>updatedCount := updatedCount s + 1\<rparr>) = Inr (v', s')"
          by (simp add: Let_def)
        from Cons.IH [OF this] False show ?thesis by simp
      next
        case nf: False
        with Cons.prems False JArray
        have "add_loop ws (JArray (xs @ [w])) (s\<lparr>newCount := newCount s + 1\<rparr>) = Inr (v', s')"
          by (simp add: Let_def)
        from Cons.IH [OF this] False show ?thesis by simp
      qed
    qed (use Cons.prems False in simp_all)
  qed
qed

lemma add_loop_all_empty:
  "list_all (\<lambda>w. publicKey w = []) ws \<Longrightarrow>
   add_loop ws v s = Inr (v, s\<lparr>skippedCount := skippedCount s + length ws\<rparr>)"
  by (induction ws arbitrary: s) simp_all

lemma add_loop_fresh:
  "list_all (\<lambda>w. publicKey w \<noteq> []) ws \<Longrightarrow> distinct (map publicKey ws) \<Longrightarrow>
   set (map publicKey ws) \<inter> set (map publicKey xs) = {} \<Longrightarrow>
   add_loop ws (JArray xs) s = Inr (JArray (xs @ ws), s\<lparr>newCount := newCount s + length ws\<rparr>)"
proof (induction ws arbitrary: xs s)
  case Nil
  then show ?case by simp
next
  case (Cons w ws)
  have "\<not> list_ex (\<lambda>x. publicKey x = publicKey w) xs"
  proof
    assume "list_ex (\<lambda>x. publicKey x = publicKey w) xs"
    then obtain x where "x \<in> set xs" "publicKey x = publicKey w"
      by (auto simp: list_ex_iff)
    then have "publicKey w \<in> set (map publicKey xs)"
      using imageI [of x "set xs" publicKey] by simp
    moreover have "publicKey w \<in> set (map publicKey (w # ws))" by simp
    ultimately show False using Cons.prems(3) by blast
  qed
  then have neg: "findIndex (\<lambda>x. publicKey x = publicKey w) xs < 0"
    by (simp add: findIndex_neg_iff)
  have "add_loop ws (JArray (xs @ [w])) (s\<lparr>newCount := newCount s + 1\<rparr>) =
        Inr (JArray ((xs @ [w]) @ ws), s\<lparr>newCount := newCount s + 1\<rparr>\<lparr>newCount := newCount (s\<lparr>newCount := newCount s + 1\<rparr>) + length ws\<rparr>)"
    using Cons.prems by (intro Cons.IH) auto
  with neg Cons.prems(1) show ?case by (simp add: Let_def)
qed

lemma add_loop_keeps_kind:
  "add_loop ws v s = Inr (v', s') \<Longrightarrow>
   (case v of JArray xs \<Rightarrow> (\<exists>ys. v' = JArray ys) | _ \<Rightarrow> v' = v)"
proof (induction ws arbitrary: v s)
  case Nil
  then show ?case by (auto split: jvalue.splits)
next
  case (Cons w ws)
  show ?case
  proof (cases "publicKey w = []")
    case True
    with Cons.prems have "add_loop ws v (s\<lparr>skippedCount := skippedCount s + 1\<rparr>) = Inr (v', s')"
      by simp
    from Cons.IH [OF this] show ?thesis .
  next
    case False
    show ?thesis
    proof (cases v)
      case (JArray xs)
      let ?i = "findIndex (\<lambda>x. publicKey x = publicKey w) xs"
      show ?thesis
      proof (cases "0 \<le> ?i")
        case True
        with Cons.prems False JArray
        have "add_loop ws (JArray (xs[nat ?i := w])) (s\<lparr>updatedCount := updatedCount s + 1\<rparr>) = Inr (v', s')"
          by (simp add: Let_def)
        from Cons.IH [OF this] JArray show ?thesis by simp
      next
        case nf: False
        with Cons.prems False JArray
        have "add_loop ws (JArray (xs @ [w])) (s\<lparr>newCount := newCount s + 1\<rparr>) = Inr (v', s')"
          by (simp add: Let_def)
        from Cons.IH [OF this] JArray show ?thesis by simp
      qed
    qed (use Cons.prems False in simp_all)
  qed
qed

lemma add_loop_single:
  "publicKey w \<noteq> [] \<Longrightarrow>
   add_loop [w] (JArray xs) \<lparr>newCount = 0, updatedCount = 0, skippedCount = 0\<rparr> =
     (if 0 \<le> findIndex (\<lambda>x. publicKey x = publicKey w) xs
      then Inr (JArray (xs[nat (findIndex (\<lambda>x. publicKey x = publicKey w) xs) := w]),
                \<lparr>newCount = 0, updatedCount = 1, skippedCount = 0\<rparr>)
      else Inr (JArray (xs @ [w]), \<lparr>newCount = 1, updatedCount = 0, skippedCount = 0\<rparr>))"
  by (simp add: Let_def)

text \<open>
  With the empty chain name (``chain not specified'') \<open>add\<close> returns at once and
  \<open>getWallets\<close> returns the empty list without reading the file. When \<^verbatim>\<open>data[chain]\<close> is a
  truthy value that is not a list (a stored one, or one inherited from
  \<^verbatim>\<open>Object.prototype\<close>), adding a wallet with a public key throws the TypeError of
  \<^verbatim>\<open>data[chain].findIndex\<close>, where \<open>getWallets\<close> returns the empty list.
\<close>

lemma add_no_chain: "add [] walletInput st = (Inr None, st)"
  by (simp add: add_def)

lemma getWallets_no_chain: "getWallets [] st = (Inr [], st)"
  by (simp add: getWallets_def)

lemma add_non_list_entry:
  assumes "chain \<noteq> []" and "publicKey w \<noteq> []"
    and "readData st = (Inr d, st1)" and "data_get d chain = Some JOther"
  shows "add chain (Single w) st = (Inl TypeError, st1)"
  using assms by (simp add: add_def)

section \<open>The store: upsert, rejected input, frame, degraded reads\<close>

text \<open>
  Upsert on a well-formed entry. Let a chain be specified (a non-empty name), let the
  store be readable and writable and let \<^verbatim>\<open>data[chain]\<close> be undefined, falsy or a list
  \<open>xs\<close>. Adding one wallet \<open>w\<close> with a non-empty public key makes the chain's list: \<open>xs\<close>
  with \<open>w\<close> in place of the first entry whose public key equals that of \<open>w\<close>, when there
  is one (same length, every other position unchanged, one wallet counted as updated);
  and \<open>xs\<close> with \<open>w\<close> appended, one longer, when there is none (one wallet counted as
  new).
\<close>

lemma add_upsert:
  assumes chain: "chain \<noteq> []" and key: "publicKey w \<noteq> []" and cw: "canWrite st"
    and rd: "fst (readData st) = Inr d" and wf: "data_get d chain \<noteq> Some JOther"
    and xs: "fst (getWallets chain st) = Inr xs"
  shows "\<exists>ys. fst (getWallets chain (snd (add chain (Single w) st))) = Inr ys \<and>
          (if list_ex (\<lambda>x. publicKey x = publicKey w) xs
           then (\<exists>i<length xs. publicKey (xs ! i) = publicKey w \<and>
                    (\<forall>j<i. publicKey (xs ! j) \<noteq> publicKey w) \<and> ys = xs[i := w]) \<and>
                length ys = length xs \<and>
                fst (add chain (Single w) st) =
                  Inr (Some \<lparr>newCount = 0, updatedCount = 1, skippedCount = 0\<rparr>)
           else ys = xs @ [w] \<and> length ys = length xs + 1 \<and>
                fst (add chain (Single w) st) =
                  Inr (Some \<lparr>newCount = 1, updatedCount = 0, skippedCount = 0\<rparr>))"
proof -
  obtain st1 where rd1: "readData st = (Inr d, st1)"
    using rd by (cases "readData st") auto
  from readData_Inr [OF rd1] cw
  have st1: "initialized st1" "canRead st1" "canWrite st1" by simp_all
  have xs_def: "xs = (case data_get d chain of Some (JArray ws) \<Rightarrow> ws | _ \<Rightarrow> [])"
    using xs getWallets_of_read [OF rd1 chain] by simp
  have v0: "(case data_get d chain of None \<Rightarrow> JArray [] | Some JFalsy \<Rightarrow> JArray []
             | Some v \<Rightarrow> v) = JArray xs"
    using wf xs_def by (auto split: option.splits jvalue.splits)
  let ?P = "\<lambda>x. publicKey x = publicKey w"
  let ?i = "findIndex ?P xs"
  let ?ys = "if 0 \<le> ?i then xs[nat ?i := w] else xs @ [w]"
  let ?sm = "if 0 \<le> ?i then \<lparr>newCount = 0, updatedCount = 1, skippedCount = 0\<rparr>
             else \<lparr>newCount = 1, updatedCount = 0, skippedCount = 0\<rparr>"
  have run: "add chain (Single w) st =
               (Inr (Some ?sm), st1\<lparr>dataFile := Parsed (d(chain \<mapsto> JArray ?ys))\<rparr>)"
    using chain rd1 st1 v0 add_loop_single [OF key, of xs]
    by (simp add: add_def writeData_initialized)
  have after: "fst (getWallets chain (snd (add chain (Single w) st))) = Inr ?ys"
    using run st1 chain by (simp add: getWallets_written)
  show ?thesis
  proof (cases "list_ex ?P xs")
    case True
    then have nn: "0 \<le> ?i" using findIndex_neg_iff [of ?P xs] by simp
    from findIndex_first [OF nn] nn after run True show ?thesis
      by (intro exI [of _ "xs[nat ?i := w]"]) auto
  next
    case False
    then have "?i < 0" by (simp add: findIndex_neg_iff)
    with after run False show ?thesis by simp
  qed
qed

lemma add_upsert_example:
  "fst (getWallets ''eth'' ex_store) = Inr [ex_wA, ex_wB] \<and>
   fst (getWallets ''eth'' (snd (add ''eth'' (Single ex_wA2) ex_store))) = Inr [ex_wA2, ex_wB] \<and>
   fst (getWallets ''eth'' (snd (add ''eth'' (Single ex_wC) ex_store))) = Inr [ex_wA, ex_wB, ex_wC]"
proof -
  let ?d = "[''eth'' \<mapsto> JArray [ex_wA, ex_wB], ''bad'' \<mapsto> JOther]"
  have c: "''eth'' \<noteq> []" and cw: "canWrite ex_store" by simp_all
  have rd: "fst (readData ex_store) = Inr ?d"
    by (simp add: readData_def initialize_def)
  have wf: "data_get ?d ''eth'' \<noteq> Some JOther" by (simp add: data_get_def)
  have xs: "fst (getWallets ''eth'' ex_store) = Inr [ex_wA, ex_wB]"
    by (simp add: getWallets_def readData_def initialize_def data_get_def)
  have k1: "publicKey ex_wA2 \<noteq> []" and k2: "publicKey ex_wC \<noteq> []" by simp_all
  from add_upsert [OF c k1 cw rd wf xs]
  have r1: "fst (getWallets ''eth'' (snd (add ''eth'' (Single ex_wA2) ex_store))) = Inr [ex_wA2, ex_wB]"
    by (auto simp: less_Suc_eq numeral_2_eq_2)
  from add_upsert [OF c k2 cw rd wf xs]
  have r2: "fst (getWallets ''eth'' (snd (add ''eth'' (Single ex_wC) ex_store))) = Inr [ex_wA, ex_wB, ex_wC]"
    by auto
  from xs r1 r2 show ?thesis by simp
qed

text \<open>
  C1, at two inputs where the code departs from it. In the first the file holds for the
  chain eth a truthy value that is not a list (as \<^verbatim>\<open>{"eth": {}}\<close>); in the second the store
  is new and the chain is named constructor, so that \<^verbatim>\<open>data[chain]\<close> is the function every
  object inherits. In both \<open>getWallets\<close> returns the empty list for the chain, so no
  stored wallet has the public key of the wallet added, and the claim has the wallet
  appended; \<open>add\<close> throws a TypeError, and the chain's list is still empty afterwards.
\<close>

theorem add_throws_on_non_list:
  "fst (getWallets ''eth'' ex_nonlist) = Inr [] \<and>
   fst (add ''eth'' (Single ex_wA) ex_nonlist) = Inl TypeError \<and>
   fst (getWallets ''eth'' (snd (add ''eth'' (Single ex_wA) ex_nonlist))) = Inr [] \<and>
   fst (getWallets ''constructor'' ex_fresh) = Inr [] \<and>
   fst (add ''constructor'' (Single ex_wA) ex_fresh) = Inl TypeError \<and>
   fst (getWallets ''constructor'' (snd (add ''constructor'' (Single ex_wA) ex_fresh))) = Inr []"
  by (simp add: getWallets_def add_def readData_def initialize_def data_get_def
        objectPrototypeNames_def)

text \<open>
  C9. For every chain, batch and store: the store after adding a batch is the store after
  adding the batch without its wallets whose public key is missing or empty, and when the
  call logs a summary its skipped count is the number of those wallets. A batch (or a
  single wallet) with only such keys leaves what \<open>getWallets\<close> returns for the chain as
  it was.
\<close>

theorem add_skips_empty_keys:
  "snd (add chain (Many ws) st) = snd (add chain (Many (filter (\<lambda>w. publicKey w \<noteq> []) ws)) st) \<and>
   (\<forall>sm. fst (add chain (Many ws) st) = Inr (Some sm) \<longrightarrow>
      skippedCount sm = length (filter (\<lambda>w. publicKey w = []) ws)) \<and>
   (list_all (\<lambda>w. publicKey w = []) ws \<longrightarrow>
      fst (getWallets chain (snd (add chain (Many ws) st))) = fst (getWallets chain st)) \<and>
   (publicKey w = [] \<longrightarrow>
      fst (getWallets chain (snd (add chain (Single w) st))) = fst (getWallets chain st))"
proof (intro conjI allI impI)
  let ?f = "filter (\<lambda>w. publicKey w \<noteq> []) ws"
  let ?s0 = "\<lparr>newCount = 0, updatedCount = 0, skippedCount = 0\<rparr>"
  show "snd (add chain (Many ws) st) = snd (add chain (Many ?f) st)"
  proof (cases "chain = []")
    case True
    then show ?thesis by (simp add: add_def)
  next
    case False
    obtain r st1 where rd: "readData st = (r, st1)" by (cases "readData st")
    show ?thesis
    proof (cases r)
      case (Inl e)
      with rd False show ?thesis by (simp add: add_def)
    next
      case (Inr d)
      let ?v0 = "case data_get d chain of None \<Rightarrow> JArray [] | Some JFalsy \<Rightarrow> JArray []
                 | Some v \<Rightarrow> v"
      have eq: "map_sum id fst (add_loop ws ?v0 ?s0) = map_sum id fst (add_loop ?f ?v0 ?s0)"
        by (rule add_loop_filter)
      show ?thesis
      proof (cases "add_loop ws ?v0 ?s0")
        case l: (Inl e)
        with eq obtain e' where "add_loop ?f ?v0 ?s0 = Inl e'"
          by (cases "add_loop ?f ?v0 ?s0") auto
        with l rd Inr False show ?thesis by (simp add: add_def)
      next
        case r: (Inr p)
        obtain v sm where p: "p = (v, sm)" by (cases p)
        with eq r obtain sm' where "add_loop ?f ?v0 ?s0 = Inr (v, sm')"
          by (cases "add_loop ?f ?v0 ?s0") auto
        with r p rd Inr False readData_Inr [of st d st1] show ?thesis
          by (simp add: add_def writeData_initialized)
      qed
    qed
  qed
next
  fix sm assume ok: "fst (add chain (Many ws) st) = Inr (Some sm)"
  show "skippedCount sm = length (filter (\<lambda>w. publicKey w = []) ws)"
  proof (cases chain "Many ws" st rule: add_cases)
    case (stored d st1 v sm')
    with ok have "sm' = sm" by simp
    with add_loop_skipped [of ws _ _ v sm'] stored(5) show ?thesis by simp
  qed (use ok in simp_all)
next
  assume all: "list_all (\<lambda>w. publicKey w = []) ws"
  show "fst (getWallets chain (snd (add chain (Many ws) st))) = fst (getWallets chain st)"
  proof (cases chain "Many ws" st rule: add_cases)
    case (stored d st1 v sm)
    from readData_Inr [OF stored(3)] have st1: "initialized st1" "canRead st1" by simp_all
    from stored(5) add_loop_all_empty [OF all]
    have "v = (case data_get d chain of None \<Rightarrow> JArray [] | Some JFalsy \<Rightarrow> JArray []
               | Some v \<Rightarrow> v)"
      by simp
    from data_get_written_same [OF this] stored st1 show ?thesis
      by (simp add: getWallets_written getWallets_of_read)
  qed (simp_all add: getWallets_read_Inl getWallets_read_Inr)
next
  assume e: "publicKey w = []"
  show "fst (getWallets chain (snd (add chain (Single w) st))) = fst (getWallets chain st)"
  proof (cases chain "Single w" st rule: add_cases)
    case (stored d st1 v sm)
    from readData_Inr [OF stored(3)] have st1: "initialized st1" "canRead st1" by simp_all
    from stored(5) e
    have "v = (case data_get d chain of None \<Rightarrow> JArray [] | Some JFalsy \<Rightarrow> JArray []
               | Some v \<Rightarrow> v)"
      by simp
    from data_get_written_same [OF this] stored st1 show ?thesis
      by (simp add: getWallets_written getWallets_of_read)
  qed (simp_all add: getWallets_read_Inl getWallets_read_Inr)
qed

theorem add_skips_empty_keys_witness:
  "fst (add ''eth'' (Many [ex_wE, ex_wC, ex_wE]) ex_store) =
     Inr (Some \<lparr>newCount = 1, updatedCount = 0, skippedCount = 2\<rparr>) \<and>
   snd (add ''eth'' (Many [ex_wE, ex_wC, ex_wE]) ex_store) = snd (add ''eth'' (Many [ex_wC]) ex_store) \<and>
   fst (getWallets ''eth'' (snd (add ''eth'' (Many [ex_wE, ex_wE]) ex_store))) = Inr [ex_wA, ex_wB] \<and>
   fst (getWallets ''eth'' (snd (add ''eth'' (Single ex_wE) ex_store))) = Inr [ex_wA, ex_wB]"
proof -
  have run: "fst (add ''eth'' (Many [ex_wE, ex_wC, ex_wE]) ex_store) =
     Inr (Some \<lparr>newCount = 1, updatedCount = 0, skippedCount = 2\<rparr>)"
    by (simp add: add_def readData_def writeData_def initialize_def Let_def)
  have xs: "fst (getWallets ''eth'' ex_store) = Inr [ex_wA, ex_wB]"
    by (simp add: getWallets_def readData_def initialize_def)
  note t1 = add_skips_empty_keys [of "''eth''" "[ex_wE, ex_wC, ex_wE]" ex_store ex_wE]
  note t2 = add_skips_empty_keys [of "''eth''" "[ex_wE, ex_wE]" ex_store ex_wE]
  have a: "snd (add ''eth'' (Many [ex_wE, ex_wC, ex_wE]) ex_store) =
           snd (add ''eth'' (Many [ex_wC]) ex_store)"
    using t1 [THEN conjunct1] by simp
  have b: "fst (getWallets ''eth'' (snd (add ''eth'' (Many [ex_wE, ex_wE]) ex_store))) =
           fst (getWallets ''eth'' ex_store)"
    using t2 [THEN conjunct2, THEN conjunct2, THEN conjunct1] by simp
  have c: "fst (getWallets ''eth'' (snd (add ''eth'' (Single ex_wE) ex_store))) =
           fst (getWallets ''eth'' ex_store)"
    using t2 [THEN conjunct2, THEN conjunct2, THEN conjunct2] by simp
  from run a b c xs show ?thesis by (simp only:)
qed

text \<open>
  C10. For distinct chains \<open>chain\<close> and \<open>chain'\<close>, any input and any store: what
  \<open>getWallets chain'\<close> returns after \<open>add chain\<close> is what it returned before, whether or not
  the call to \<open>add\<close> threw.
\<close>

theorem add_frame:
  assumes "chain' \<noteq> chain"
  shows "fst (getWallets chain' (snd (add chain walletInput st))) = fst (getWallets chain' st)"
proof (cases chain walletInput st rule: add_cases)
  case early
  then show ?thesis by simp
next
  case (read_fails e st1)
  then show ?thesis by (simp add: getWallets_read_Inl)
next
  case (loop_fails d st1 e)
  then show ?thesis by (simp add: getWallets_read_Inr)
next
  case (write_fails d st1)
  then show ?thesis by (simp add: getWallets_read_Inr)
next
  case (stored d st1 v sm)
  from readData_Inr [OF stored(3)] have st1: "initialized st1" "canRead st1" by simp_all
  show ?thesis
  proof (cases "chain' = []")
    case True
    then show ?thesis by (simp add: getWallets_def)
  next
    case False
    with stored st1 assms show ?thesis
      by (simp add: getWallets_written getWallets_of_read data_get_written_other)
  qed
qed

theorem add_frame_witness:
  "''sol'' \<noteq> ''eth'' \<and>
   fst (getWallets ''eth'' (snd (add ''sol'' (Single ex_wA) ex_store))) = Inr [ex_wA, ex_wB]"
proof -
  have ne: "''eth'' \<noteq> ''sol''" by simp
  have "fst (getWallets ''eth'' ex_store) = Inr [ex_wA, ex_wB]"
    by (simp add: getWallets_def readData_def initialize_def)
  with add_frame [OF ne, of "Single ex_wA" ex_store] show ?thesis by simp
qed

text \<open>
  C7. On a readable and writable store, \<open>getWallets chain\<close> returns the empty list, and
  does not throw, when the file is unparseable, does not exist yet, holds a falsy value,
  or holds for the chain no value or a value that is not a list. When the file is
  unparseable, a read for a specified chain leaves the file holding the empty object, and
  every later \<open>getWallets\<close> returns the empty list.
\<close>

theorem getWallets_degrades:
  assumes rw: "canRead st" "canWrite st"
    and bad: "dataFile st = Corrupt \<or> dataFile st = ParsedFalsy \<or>
              (dataFile st = NoFile \<and> \<not> initialized st) \<or>
              (\<exists>d. dataFile st = Parsed d \<and>
                   (d chain = None \<or> d chain = Some JFalsy \<or> d chain = Some JOther))"
  shows "fst (getWallets chain st) = Inr [] \<and>
         (dataFile st = Corrupt \<longrightarrow>
            (chain \<noteq> [] \<longrightarrow> dataFile (snd (getWallets chain st)) = Parsed Map.empty) \<and>
            (\<forall>c. fst (getWallets c (snd (getWallets chain st))) = Inr []))"
proof (cases "dataFile st = Corrupt")
  case True
  have reset: "readData st = (Inr Map.empty, st\<lparr>initialized := True, dataFile := Parsed Map.empty\<rparr>)"
    using True rw by (simp add: readData_def initialize_def)
  have again: "fst (getWallets c (st\<lparr>initialized := True, dataFile := Parsed Map.empty\<rparr>)) = Inr []" for c
    using rw by (simp add: getWallets_def readData_def data_get_not_array)
  have first: "fst (getWallets c st) = Inr []" for c
    using reset by (simp add: getWallets_def data_get_not_array)
  show ?thesis
  proof (cases "chain = []")
    case e: True
    then have "snd (getWallets chain st) = st" by (simp add: getWallets_def)
    with first e show ?thesis by simp
  next
    case False
    then have "snd (getWallets chain st) = st\<lparr>initialized := True, dataFile := Parsed Map.empty\<rparr>"
      using reset by (simp add: getWallets_def)
    with first again show ?thesis by simp
  qed
next
  case False
  with bad consider (falsy) "dataFile st = ParsedFalsy"
    | (fresh) "dataFile st = NoFile" "\<not> initialized st"
    | (parsed) d where "dataFile st = Parsed d"
        "d chain = None \<or> d chain = Some JFalsy \<or> d chain = Some JOther"
    by blast
  then have "fst (getWallets chain st) = Inr []"
  proof cases
    case falsy
    then have "fst (readData st) = Inr Map.empty"
      using rw by (simp add: readData_def initialize_def)
    then show ?thesis
      by (cases "readData st") (auto simp: getWallets_def data_get_not_array)
  next
    case fresh
    then have "fst (readData st) = Inr Map.empty"
      using rw by (simp add: readData_def initialize_def)
    then show ?thesis
      by (cases "readData st") (auto simp: getWallets_def data_get_not_array)
  next
    case (parsed d)
    then have "fst (readData st) = Inr d"
      using rw by (simp add: readData_def initialize_def)
    with data_get_not_array [of d chain, OF parsed(2)] show ?thesis
      by (cases "readData st") (auto simp: getWallets_def)
  qed
  with False show ?thesis by simp
qed

theorem getWallets_degrades_witness:
  "fst (getWallets ''eth'' ex_corrupt) = Inr [] \<and>
   dataFile (snd (getWallets ''eth'' ex_corrupt)) = Parsed Map.empty \<and>
   fst (getWallets ''eth'' (snd (getWallets ''eth'' ex_corrupt))) = Inr [] \<and>
   fst (getWallets ''bad'' ex_store) = Inr [] \<and>
   fst (getWallets ''sol'' ex_store) = Inr []"
proof -
  have c: "dataFile ex_corrupt = Corrupt \<or> dataFile ex_corrupt = ParsedFalsy \<or>
        (dataFile ex_corrupt = NoFile \<and> \<not> initialized ex_corrupt) \<or>
        (\<exists>d. dataFile ex_corrupt = Parsed d \<and>
             (d ''eth'' = None \<or> d ''eth'' = Some JFalsy \<or> d ''eth'' = Some JOther))"
    by simp
  have b: "dataFile ex_store = Corrupt \<or> dataFile ex_store = ParsedFalsy \<or>
        (dataFile ex_store = NoFile \<and> \<not> initialized ex_store) \<or>
        (\<exists>d. dataFile ex_store = Parsed d \<and>
             (d ''bad'' = None \<or> d ''bad'' = Some JFalsy \<or> d ''bad'' = Some JOther))"
    by simp
  have a: "dataFile ex_store = Corrupt \<or> dataFile ex_store = ParsedFalsy \<or>
        (dataFile ex_store = NoFile \<and> \<not> initialized ex_store) \<or>
        (\<exists>d. dataFile ex_store = Parsed d \<and>
             (d ''sol'' = None \<or> d ''sol'' = Some JFalsy \<or> d ''sol'' = Some JOther))"
    by simp
  from getWallets_degrades [of ex_corrupt "''eth''", OF _ _ c]
       getWallets_degrades [of ex_store "''bad''", OF _ _ b]
       getWallets_degrades [of ex_store "''sol''", OF _ _ a]
  show ?thesis by simp
qed


section \<open>Providers: the soft failures of drainWallet\<close>

text \<open>
  C3. For a wallet whose key decodes and whose balance query returns, in either provider:
  a balance of zero makes \<open>drainWallet\<close> return, without throwing, the unsuccessful result
  with reason "wallet balance is 0"; a positive balance with balance minus fee at most
  zero (the fee being gas limit times the gas price the node reports, for the EVM
  provider, and the fixed minimum fee, for the Solana provider) makes it return the
  unsuccessful result with reason "wallet has insufficient balance to cover the transfer
  fee", which contains "insufficient balance to cover the transfer fee" and "insufficient
  balance". In all four cases no transaction is submitted.
\<close>

theorem drainWallet_soft_failures:
  "(addressOfKey en (privateKey wallet) = Inr sender \<longrightarrow> evmBalanceOf en sender = Inr 0 \<longrightarrow>
      EVM_drainWallet eo en recipient wallet = (Inr zero_balance_result, []))
   \<and> (addressOfKey en (privateKey wallet) = Inr sender \<longrightarrow> evmBalanceOf en sender = Inr balance \<longrightarrow>
      0 < balance \<longrightarrow> getFeeData en = Inr fd \<longrightarrow>
      js_or (maxFeePerGas fd) (gasPrice fd) = Some fee \<longrightarrow> fee \<noteq> 0 \<longrightarrow>
      balance - estimatedTransferGasLimit eo * fee \<le> 0 \<longrightarrow>
      EVM_drainWallet eo en recipient wallet = (Inr insufficient_result, []))
   \<and> (keypairOfSecret sn (privateKey wallet) = Inr sender \<longrightarrow> lamportsOf sn sender = Inr 0 \<longrightarrow>
      Solana_drainWallet so sn recipient wallet = (Inr zero_balance_result, []))
   \<and> (keypairOfSecret sn (privateKey wallet) = Inr sender \<longrightarrow> lamportsOf sn sender = Inr balance \<longrightarrow>
      0 < balance \<longrightarrow> balance - estimatedMinimumFee so \<le> 0 \<longrightarrow>
      Solana_drainWallet so sn recipient wallet = (Inr insufficient_result, []))
   \<and> includes_str ''wallet has insufficient balance to cover the transfer fee''
        ''insufficient balance to cover the transfer fee''
   \<and> includes_str ''wallet has insufficient balance to cover the transfer fee''
        ''insufficient balance''
   \<and> includes_str ''wallet balance is 0'' ''balance is 0''"
proof (intro conjI impI)
  show "includes_str ''wallet has insufficient balance to cover the transfer fee''
        ''insufficient balance to cover the transfer fee''" by simp
  show "includes_str ''wallet has insufficient balance to cover the transfer fee''
        ''insufficient balance''" by simp
  show "includes_str ''wallet balance is 0'' ''balance is 0''" by simp
qed (simp_all add: EVM_drainWallet_def Solana_drainWallet_def Let_def)


theorem drainWallet_soft_failures_witness:
  "EVM_drainWallet ex_eo (ex_en 0) ''F'' ex_wA = (Inr zero_balance_result, []) \<and>
   EVM_drainWallet ex_eo (ex_en 100) ''F'' ex_wA = (Inr insufficient_result, []) \<and>
   Solana_drainWallet ex_so (ex_sn 0) ''F'' ex_wA = (Inr zero_balance_result, []) \<and>
   Solana_drainWallet ex_so (ex_sn 5000) ''F'' ex_wA = (Inr insufficient_result, [])"
proof -
  note t = drainWallet_soft_failures [where wallet = ex_wA and recipient = "''F''"
      and eo = ex_eo and so = ex_so]
  have a: "EVM_drainWallet ex_eo (ex_en 0) ''F'' ex_wA = (Inr zero_balance_result, [])"
    using t [where en = "ex_en 0" and sender = "''0xS''", THEN conjunct1] by simp
  have b: "EVM_drainWallet ex_eo (ex_en 100) ''F'' ex_wA = (Inr insufficient_result, [])"
    using t [where en = "ex_en 100" and sender = "''0xS''" and balance = 100 and fee = 30
        and fd = "\<lparr>maxFeePerGas = Some 30, gasPrice = None, maxPriorityFeePerGas = None\<rparr>",
        THEN conjunct2, THEN conjunct1]
    by (simp add: js_or_def)
  have c: "Solana_drainWallet ex_so (ex_sn 0) ''F'' ex_wA = (Inr zero_balance_result, [])"
    using t [where sn = "ex_sn 0" and sender = "''So1''",
        THEN conjunct2, THEN conjunct2, THEN conjunct1] by simp
  have d: "Solana_drainWallet ex_so (ex_sn 5000) ''F'' ex_wA = (Inr insufficient_result, [])"
    using t [where sn = "ex_sn 5000" and sender = "''So1''" and balance = 5000,
        THEN conjunct2, THEN conjunct2, THEN conjunct2, THEN conjunct1] by simp
  from a b c d show ?thesis by (simp only:)
qed


section \<open>Create: numbering\<close>

lemma generations_length: "generations g n s = (Inr ks, s') \<Longrightarrow> length ks = n"
  by (induction n arbitrary: s ks) (auto split: prod.splits sum.splits)

text \<open>
  The loop of the handler on each provider: when the key generations it needs succeed, it
  returns one wallet per key, made of that key and of the next alias.
\<close>

lemma create_loop_EVM:
  "createWallet provider = EVM_createWallet g \<Longrightarrow>
   generations g (n - i) s = (Inr ks, s') \<Longrightarrow>
   create_loop provider n0 n i ws s =
     (Inr (ws @ map2 (\<lambda>k kp. \<lparr>privateKey = fst kp, publicKey = snd kp,
                               alias' = ''wallet-'' @ string_of_nat (n0 + k)\<rparr>) [i..<n] ks), s')"
proof (induction provider n0 n i ws s arbitrary: ks rule: create_loop.induct)
  case (1 provider n0 n i ws s)
  show ?case
  proof (cases "i < n")
    case False
    with "1.prems" show ?thesis by (simp add: create_loop.simps)
  next
    case True
    then have m: "n - i = Suc (n - (i + 1))" by simp
    let ?al = "''wallet-'' @ string_of_nat (n0 + i)"
    from "1.prems"(2) obtain k s1 ks' where g: "g s = (Inr k, s1)"
      and rest: "generations g (n - (i + 1)) s1 = (Inr ks', s')" and ks: "ks = k # ks'"
      unfolding m by (auto split: prod.splits sum.splits)
    let ?w = "\<lparr>privateKey = fst k, publicKey = snd k, alias' = ?al\<rparr>"
    have cw: "createWallet provider ?al s = (Inr ?w, s1)"
      using "1.prems"(1) g by (cases k) (simp add: EVM_createWallet_def)
    have "create_loop provider n0 n (i + 1) (ws @ [?w]) s1 =
        (Inr ((ws @ [?w]) @ map2 (\<lambda>k kp. \<lparr>privateKey = fst kp, publicKey = snd kp,
                               alias' = ''wallet-'' @ string_of_nat (n0 + k)\<rparr>) [i + 1..<n] ks'), s')"
      using "1.IH" [OF True refl cw [symmetric] refl "1.prems"(1) rest] .
    moreover have "[i..<n] = i # [i + 1..<n]" using True by (simp add: upt_conv_Cons)
    ultimately show ?thesis
      using True cw ks by (simp add: create_loop.simps [of provider n0 n i])
  qed
qed

lemma create_loop_Solana:
  "createWallet provider = Solana_createWallet g \<Longrightarrow>
   generations g (n - i) s = (Inr ks, s') \<Longrightarrow>
   create_loop provider n0 n i ws s =
     (Inr (ws @ map2 (\<lambda>k kp. \<lparr>privateKey = ''['' @ join_comma (map string_of_nat (fst kp)) @ '']'',
                               publicKey = snd kp,
                               alias' = ''wallet-'' @ string_of_nat (n0 + k)\<rparr>) [i..<n] ks), s')"
proof (induction provider n0 n i ws s arbitrary: ks rule: create_loop.induct)
  case (1 provider n0 n i ws s)
  show ?case
  proof (cases "i < n")
    case False
    with "1.prems" show ?thesis by (simp add: create_loop.simps)
  next
    case True
    then have m: "n - i = Suc (n - (i + 1))" by simp
    let ?al = "''wallet-'' @ string_of_nat (n0 + i)"
    from "1.prems"(2) obtain k s1 ks' where g: "g s = (Inr k, s1)"
      and rest: "generations g (n - (i + 1)) s1 = (Inr ks', s')" and ks: "ks = k # ks'"
      unfolding m by (auto split: prod.splits sum.splits)
    let ?w = "\<lparr>privateKey = ''['' @ join_comma (map string_of_nat (fst k)) @ '']'',
               publicKey = snd k, alias' = ?al\<rparr>"
    have cw: "createWallet provider ?al s = (Inr ?w, s1)"
      using "1.prems"(1) g by (cases k) (simp add: Solana_createWallet_def)
    have "create_loop provider n0 n (i + 1) (ws @ [?w]) s1 =
        (Inr ((ws @ [?w]) @ map2 (\<lambda>k kp. \<lparr>privateKey = ''['' @ join_comma (map string_of_nat (fst kp)) @ '']'',
                               publicKey = snd kp,
                               alias' = ''wallet-'' @ string_of_nat (n0 + k)\<rparr>) [i + 1..<n] ks'), s')"
      using "1.IH" [OF True refl cw [symmetric] refl "1.prems"(1) rest] .
    moreover have "[i..<n] = i # [i + 1..<n]" using True by (simp add: upt_conv_Cons)
    ultimately show ?thesis
      using True cw ks by (simp add: create_loop.simps [of provider n0 n i])
  qed
qed

text \<open>
  From the wallets the loop returns to the store: when their public keys are non-empty,
  distinct and not yet stored, one call of \<open>add\<close> appends them all.
\<close>

lemma create_stores:
  assumes chain: "chain \<noteq> []"
    and rd: "fst (readData st) = Inr d" and wf: "data_get d chain \<noteq> Some JOther"
    and cw: "canWrite st"
    and xs: "fst (getWallets chain st) = Inr xs"
    and fc: "forChain chain = Inr provider"
    and gen: "create_loop provider (length xs) n 0 [] s = (Inr ws, s1)"
    and fresh: "list_all (\<lambda>w. publicKey w \<noteq> []) ws" "distinct (map publicKey ws)"
               "set (map publicKey ws) \<inter> set (map publicKey xs) = {}"
  shows "CreateWalletsHandler_handle forChain chain n (st, s) =
           (Inr ws, snd (add chain (Many ws) (snd (count chain st))), s1) \<and>
         fst (getWallets chain (fst (snd (CreateWalletsHandler_handle forChain chain n (st, s))))) =
           Inr (xs @ ws) \<and>
         fst (count chain (fst (snd (CreateWalletsHandler_handle forChain chain n (st, s))))) =
           Inr (length xs + length ws)"
proof -
  obtain st1 where rd1: "readData st = (Inr d, st1)"
    using rd by (cases "readData st") auto
  from readData_Inr [OF rd1] cw
  have st1: "initialized st1" "canRead st1" "canWrite st1" by simp_all
  have xs_def: "xs = (case data_get d chain of Some (JArray ws) \<Rightarrow> ws | _ \<Rightarrow> [])"
    using xs getWallets_of_read [OF rd1 chain] by simp
  have v0: "(case data_get d chain of None \<Rightarrow> JArray [] | Some JFalsy \<Rightarrow> JArray []
             | Some v \<Rightarrow> v) = JArray xs"
    using wf xs_def by (auto split: option.splits jvalue.splits)
  have cnt: "count chain st = (Inr (length xs), st1)"
    using chain rd1 xs_def by (simp add: count_def getWallets_def)
  have loop: "add_loop ws (JArray xs) \<lparr>newCount = 0, updatedCount = 0, skippedCount = 0\<rparr> =
      Inr (JArray (xs @ ws), \<lparr>newCount = 0, updatedCount = 0, skippedCount = 0\<rparr>
             \<lparr>newCount := newCount \<lparr>newCount = 0, updatedCount = 0, skippedCount = 0\<rparr> + length ws\<rparr>)"
    by (rule add_loop_fresh [OF fresh])
  have rd2: "readData st1 = (Inr d, st1)" by (rule readData_idem [OF rd1])
  have stored: "add chain (Many ws) st1 =
      (Inr (Some \<lparr>newCount = length ws, updatedCount = 0, skippedCount = 0\<rparr>),
       st1\<lparr>dataFile := Parsed (d(chain \<mapsto> JArray (xs @ ws)))\<rparr>)"
    using chain rd2 st1 v0 loop by (simp add: add_def writeData_initialized)
  have run: "CreateWalletsHandler_handle forChain chain n (st, s) =
      (Inr ws, st1\<lparr>dataFile := Parsed (d(chain \<mapsto> JArray (xs @ ws)))\<rparr>, s1)"
    using cnt fc gen stored by (simp add: CreateWalletsHandler_handle_def)
  have after: "fst (getWallets chain (st1\<lparr>dataFile := Parsed (d(chain \<mapsto> JArray (xs @ ws)))\<rparr>)) =
      Inr (xs @ ws)"
    using st1 chain by (simp add: getWallets_written)
  then have cafter: "fst (count chain (st1\<lparr>dataFile := Parsed (d(chain \<mapsto> JArray (xs @ ws)))\<rparr>)) =
      Inr (length xs + length ws)"
    using chain
    by (cases "getWallets chain (st1\<lparr>dataFile := Parsed (d(chain \<mapsto> JArray (xs @ ws)))\<rparr>)")
       (auto simp: count_def)
  from run stored cnt after cafter show ?thesis by simp
qed

text \<open>
  Create on a well-formed entry. Let a chain be specified, \<^verbatim>\<open>data[chain]\<close> be undefined,
  falsy or a list \<open>xs\<close> (so the registry count is \<open>length xs\<close>) on a readable and writable
  store, the factory resolve the chain to a provider whose \<open>createWallet\<close> is that of the
  EVM provider (first lemma) or of the Solana provider (second lemma), and the \<open>n\<close> key
  generations succeed with non-empty public keys that are fresh (distinct from each other
  and from the stored ones). Then \<open>create\<close> returns \<open>n\<close> wallets, made of the generated
  keys in order, with aliases wallet-\<open>length xs\<close>, ..., wallet-\<open>length xs + n - 1\<close>; it
  stores them by one call of \<open>add\<close> with all of them; and afterwards the chain's list is
  \<open>xs\<close> followed by the new wallets and its count is \<open>length xs + n\<close>.
\<close>

lemma create_numbering_EVM:
  assumes chain: "chain \<noteq> []" and n: "1 \<le> n"
    and rd: "fst (readData st) = Inr d" and wf: "data_get d chain \<noteq> Some JOther"
    and cw: "canWrite st"
    and xs: "fst (getWallets chain st) = Inr xs"
    and fc: "forChain chain = Inr provider"
    and prov: "createWallet provider = EVM_createWallet g"
    and keys: "generations g n s = (Inr ks, s1)"
    and fresh: "list_all (\<lambda>kp. snd kp \<noteq> []) ks" "distinct (map snd ks)"
               "set (map snd ks) \<inter> set (map publicKey xs) = {}"
    and ws: "ws = map2 (\<lambda>k kp. \<lparr>privateKey = fst kp, publicKey = snd kp,
                                alias' = ''wallet-'' @ string_of_nat (length xs + k)\<rparr>) [0..<n] ks"
  shows "CreateWalletsHandler_handle forChain chain n (st, s) =
           (Inr ws, snd (add chain (Many ws) (snd (count chain st))), s1) \<and>
         length ws = n \<and>
         map alias' ws = map (\<lambda>k. ''wallet-'' @ string_of_nat (length xs + k)) [0..<n] \<and>
         fst (getWallets chain (fst (snd (CreateWalletsHandler_handle forChain chain n (st, s))))) =
           Inr (xs @ ws) \<and>
         fst (count chain (fst (snd (CreateWalletsHandler_handle forChain chain n (st, s))))) =
           Inr (length xs + n)"
proof -
  have len: "length ks = n" by (rule generations_length [OF keys])
  have gen: "create_loop provider (length xs) n 0 [] s = (Inr ws, s1)"
    using create_loop_EVM [OF prov, of n 0 s ks s1 "length xs" "[]"] keys ws by simp
  have pk: "map publicKey ws = map snd ks"
    unfolding ws using len by (intro nth_equalityI) simp_all
  have al: "map alias' ws = map (\<lambda>k. ''wallet-'' @ string_of_nat (length xs + k)) [0..<n]"
    unfolding ws using len by (intro nth_equalityI) simp_all
  have lw: "length ws = n" unfolding ws using len by simp
  have f1: "list_all (\<lambda>w. publicKey w \<noteq> []) ws"
    using fresh(1) pk by (metis (mono_tags, lifting) list_all_iff imageE image_eqI list.set_map)
  have f2: "distinct (map publicKey ws)" using fresh(2) pk by simp
  have f3: "set (map publicKey ws) \<inter> set (map publicKey xs) = {}" using fresh(3) pk by simp
  note st = create_stores [where forChain = forChain and chain = chain and n = n,
      OF chain rd wf cw xs fc gen f1 f2 f3]
  from st have "fst (count chain (fst (snd (CreateWalletsHandler_handle forChain chain n (st, s))))) =
      Inr (length xs + n)" unfolding lw by (rule conjunct2 [THEN conjunct2])
  with st [THEN conjunct1] st [THEN conjunct2, THEN conjunct1] lw al
  show ?thesis by (intro conjI)
qed

lemma create_numbering_Solana:
  assumes chain: "chain \<noteq> []" and n: "1 \<le> n"
    and rd: "fst (readData st) = Inr d" and wf: "data_get d chain \<noteq> Some JOther"
    and cw: "canWrite st"
    and xs: "fst (getWallets chain st) = Inr xs"
    and fc: "forChain chain = Inr provider"
    and prov: "createWallet provider = Solana_createWallet g"
    and keys: "generations g n s = (Inr ks, s1)"
    and fresh: "list_all (\<lambda>kp. snd kp \<noteq> []) ks" "distinct (map snd ks)"
               "set (map snd ks) \<inter> set (map publicKey xs) = {}"
    and ws: "ws = map2 (\<lambda>k kp. \<lparr>privateKey = ''['' @ join_comma (map string_of_nat (fst kp)) @ '']'',
                                publicKey = snd kp,
                                alias' = ''wallet-'' @ string_of_nat (length xs + k)\<rparr>) [0..<n] ks"
  shows "CreateWalletsHandler_handle forChain chain n (st, s) =
           (Inr ws, snd (add chain (Many ws) (snd (count chain st))), s1) \<and>
         length ws = n \<and>
         map alias' ws = map (\<lambda>k. ''wallet-'' @ string_of_nat (length xs + k)) [0..<n] \<and>
         fst (getWallets chain (fst (snd (CreateWalletsHandler_handle forChain chain n (st, s))))) =
           Inr (xs @ ws) \<and>
         fst (count chain (fst (snd (CreateWalletsHandler_handle forChain chain n (st, s))))) =
           Inr (length xs + n)"
proof -
  have len: "length ks = n" by (rule generations_length [OF keys])
  have gen: "create_loop provider (length xs) n 0 [] s = (Inr ws, s1)"
    using create_loop_Solana [OF prov, of n 0 s ks s1 "length xs" "[]"] keys ws by simp
  have pk: "map publicKey ws = map snd ks"
    unfolding ws using len by (intro nth_equalityI) simp_all
  have al: "map alias' ws = map (\<lambda>k. ''wallet-'' @ string_of_nat (length xs + k)) [0..<n]"
    unfolding ws using len by (intro nth_equalityI) simp_all
  have lw: "length ws = n" unfolding ws using len by simp
  have f1: "list_all (\<lambda>w. publicKey w \<noteq> []) ws"
    using fresh(1) pk by (metis (mono_tags, lifting) list_all_iff imageE image_eqI list.set_map)
  have f2: "distinct (map publicKey ws)" using fresh(2) pk by simp
  have f3: "set (map publicKey ws) \<inter> set (map publicKey xs) = {}" using fresh(3) pk by simp
  note st = create_stores [where forChain = forChain and chain = chain and n = n,
      OF chain rd wf cw xs fc gen f1 f2 f3]
  from st have "fst (count chain (fst (snd (CreateWalletsHandler_handle forChain chain n (st, s))))) =
      Inr (length xs + n)" unfolding lw by (rule conjunct2 [THEN conjunct2])
  with st [THEN conjunct1] st [THEN conjunct2, THEN conjunct1] lw al
  show ?thesis by (intro conjI)
qed

text \<open>
  The two lemmas at the example of the specification: three stored wallets and
  \<open>create(chain, 2)\<close> give the aliases wallet-3 and wallet-4 and the count 5, with the EVM
  and with the Solana provider.
\<close>

lemma create_numbering_EVM_example:
  "fst (CreateWalletsHandler_handle (\<lambda>c. Inr ex_creator) ''eth'' 2 (ex_store3, 0)) =
     Inr [\<lparr>privateKey = ''pa'', publicKey = ''0xN0'', alias' = ''wallet-3''\<rparr>,
          \<lparr>privateKey = ''pb'', publicKey = ''0xN1'', alias' = ''wallet-4''\<rparr>] \<and>
   fst (count ''eth'' (fst (snd (CreateWalletsHandler_handle (\<lambda>c. Inr ex_creator) ''eth'' 2
         (ex_store3, 0))))) = Inr 5"
proof -
  let ?d = "[''eth'' \<mapsto> JArray [ex_wA, ex_wB, ex_wC]]"
  let ?ks = "[(''pa'', ''0xN0''), (''pb'', ''0xN1'')]"
  let ?ws = "[\<lparr>privateKey = ''pa'', publicKey = ''0xN0'', alias' = ''wallet-3''\<rparr>,
              \<lparr>privateKey = ''pb'', publicKey = ''0xN1'', alias' = ''wallet-4''\<rparr>]"
  have chain: "''eth'' \<noteq> []" and n: "1 \<le> (2::nat)" and cw: "canWrite ex_store3" by simp_all
  have rd: "fst (readData ex_store3) = Inr ?d" by (simp add: readData_def initialize_def)
  have wf: "data_get ?d ''eth'' \<noteq> Some JOther" by (simp add: data_get_def)
  have xs: "fst (getWallets ''eth'' ex_store3) = Inr [ex_wA, ex_wB, ex_wC]"
    by (simp add: getWallets_def readData_def initialize_def data_get_def)
  have fc: "(\<lambda>c. Inr ex_creator) ''eth'' = Inr ex_creator" by simp
  have prov: "createWallet ex_creator = EVM_createWallet ex_createRandom" by simp
  have keys: "generations ex_createRandom 2 0 = (Inr ?ks, 2)"
    by (simp add: numeral_2_eq_2)
  have fresh: "list_all (\<lambda>kp. snd kp \<noteq> []) ?ks" "distinct (map snd ?ks)"
    "set (map snd ?ks) \<inter> set (map publicKey [ex_wA, ex_wB, ex_wC]) = {}"
    by simp_all
  have ws: "?ws = map2 (\<lambda>k kp. \<lparr>privateKey = fst kp, publicKey = snd kp,
      alias' = ''wallet-'' @ string_of_nat (length [ex_wA, ex_wB, ex_wC] + k)\<rparr>) [0..<2] ?ks"
    by (simp add: upt_rec string_of_nat.simps)
  note t = create_numbering_EVM [where forChain = "\<lambda>c. Inr ex_creator" and chain = "''eth''",
      OF chain n rd wf cw xs fc prov keys fresh ws]
  have a: "fst (CreateWalletsHandler_handle (\<lambda>c. Inr ex_creator) ''eth'' 2 (ex_store3, 0)) = Inr ?ws"
    using t [THEN conjunct1] by (simp only: fst_conv)
  have b: "fst (count ''eth'' (fst (snd (CreateWalletsHandler_handle (\<lambda>c. Inr ex_creator) ''eth'' 2
         (ex_store3, 0))))) = Inr 5"
    using t [THEN conjunct2, THEN conjunct2, THEN conjunct2, THEN conjunct2] by simp
  from a b show ?thesis by (rule conjI)
qed

lemma create_numbering_Solana_example:
  "fst (CreateWalletsHandler_handle (\<lambda>c. Inr ex_solana_creator) ''eth'' 2 (ex_store3, 0)) =
     Inr [\<lparr>privateKey = ''[7,0]'', publicKey = ''So1'', alias' = ''wallet-3''\<rparr>,
          \<lparr>privateKey = ''[1,3]'', publicKey = ''So2'', alias' = ''wallet-4''\<rparr>] \<and>
   fst (count ''eth'' (fst (snd (CreateWalletsHandler_handle (\<lambda>c. Inr ex_solana_creator) ''eth'' 2
         (ex_store3, 0))))) = Inr 5"
proof -
  let ?d = "[''eth'' \<mapsto> JArray [ex_wA, ex_wB, ex_wC]]"
  let ?ks = "[([7, 0], ''So1''), ([1, 3], ''So2'')] :: (nat list \<times> string) list"
  let ?ws = "[\<lparr>privateKey = ''[7,0]'', publicKey = ''So1'', alias' = ''wallet-3''\<rparr>,
              \<lparr>privateKey = ''[1,3]'', publicKey = ''So2'', alias' = ''wallet-4''\<rparr>]"
  have chain: "''eth'' \<noteq> []" and n: "1 \<le> (2::nat)" and cw: "canWrite ex_store3" by simp_all
  have rd: "fst (readData ex_store3) = Inr ?d" by (simp add: readData_def initialize_def)
  have wf: "data_get ?d ''eth'' \<noteq> Some JOther" by (simp add: data_get_def)
  have xs: "fst (getWallets ''eth'' ex_store3) = Inr [ex_wA, ex_wB, ex_wC]"
    by (simp add: getWallets_def readData_def initialize_def data_get_def)
  have fc: "(\<lambda>c. Inr ex_solana_creator) ''eth'' = Inr ex_solana_creator" by simp
  have prov: "createWallet ex_solana_creator = Solana_createWallet ex_generate" by simp
  have keys: "generations ex_generate 2 0 = (Inr ?ks, 2)"
    by (simp add: numeral_2_eq_2)
  have fresh: "list_all (\<lambda>kp. snd kp \<noteq> []) ?ks" "distinct (map snd ?ks)"
    "set (map snd ?ks) \<inter> set (map publicKey [ex_wA, ex_wB, ex_wC]) = {}"
    by simp_all
  have ws: "?ws = map2 (\<lambda>k kp. \<lparr>privateKey = ''['' @ join_comma (map string_of_nat (fst kp)) @ '']'',
      publicKey = snd kp,
      alias' = ''wallet-'' @ string_of_nat (length [ex_wA, ex_wB, ex_wC] + k)\<rparr>) [0..<2] ?ks"
    by (simp add: upt_rec string_of_nat.simps)
  note t = create_numbering_Solana [where forChain = "\<lambda>c. Inr ex_solana_creator" and chain = "''eth''",
      OF chain n rd wf cw xs fc prov keys fresh ws]
  have a: "fst (CreateWalletsHandler_handle (\<lambda>c. Inr ex_solana_creator) ''eth'' 2 (ex_store3, 0)) = Inr ?ws"
    using t [THEN conjunct1] by (simp only: fst_conv)
  have b: "fst (count ''eth'' (fst (snd (CreateWalletsHandler_handle (\<lambda>c. Inr ex_solana_creator) ''eth'' 2
         (ex_store3, 0))))) = Inr 5"
    using t [THEN conjunct2, THEN conjunct2, THEN conjunct2, THEN conjunct2] by simp
  from a b show ?thesis by (rule conjI)
qed

text \<open>
  C4, at an input where the code departs from it. The registry file is
  \<^verbatim>\<open>{"eth": {}}\<close>: the entry of the chain is an object, not a list. \<open>count\<close> goes through
  \<open>getWallets\<close>, which tests \<^verbatim>\<open>Array.isArray\<close>, so the registry holds \<open>n0 = 0\<close> wallets for
  the chain. \<open>create(eth, 2)\<close> then generates two wallets, with the aliases wallet-0 and
  wallet-1, and makes its single call of \<open>add\<close> with both; \<open>add\<close> guards the entry with
  \<^verbatim>\<open>!data[chain]\<close> only, calls \<^verbatim>\<open>findIndex\<close> on the object and throws a TypeError. The
  handler fails with it, nothing is persisted, and the count of the chain is still \<open>0\<close>,
  not \<open>n0 + 2 = 2\<close>. The two key generations have been made (the generator has advanced
  by two). Elsewhere the claim holds: see \<open>create_numbering_EVM\<close> and
  \<open>create_numbering_Solana\<close>.
\<close>

theorem create_throws_on_non_list:
  "fst (count ''eth'' ex_nonlist) = Inr 0 \<and>
   create_loop ex_creator 0 2 0 [] 0 =
     (Inr [\<lparr>privateKey = ''pa'', publicKey = ''0xN0'', alias' = ''wallet-0''\<rparr>,
           \<lparr>privateKey = ''pb'', publicKey = ''0xN1'', alias' = ''wallet-1''\<rparr>], 2) \<and>
   fst (CreateWalletsHandler_handle (\<lambda>c. Inr ex_creator) ''eth'' 2 (ex_nonlist, 0)) =
     Inl TypeError \<and>
   snd (snd (CreateWalletsHandler_handle (\<lambda>c. Inr ex_creator) ''eth'' 2 (ex_nonlist, 0))) = 2 \<and>
   fst (count ''eth'' (fst (snd (CreateWalletsHandler_handle (\<lambda>c. Inr ex_creator) ''eth'' 2
         (ex_nonlist, 0))))) = Inr 0"
proof -
  have cnt: "count ''eth'' ex_nonlist = (Inr 0, ex_nonlist\<lparr>initialized := True\<rparr>)"
    by (simp add: count_def getWallets_def readData_def initialize_def data_get_def)
  have loop: "create_loop ex_creator 0 2 0 [] 0 =
     (Inr [\<lparr>privateKey = ''pa'', publicKey = ''0xN0'', alias' = ''wallet-0''\<rparr>,
           \<lparr>privateKey = ''pb'', publicKey = ''0xN1'', alias' = ''wallet-1''\<rparr>], 2)"
    by (simp add: create_loop.simps EVM_createWallet_def string_of_nat.simps numeral_2_eq_2)
  have run: "CreateWalletsHandler_handle (\<lambda>c. Inr ex_creator) ''eth'' 2 (ex_nonlist, 0) =
      (Inl TypeError, ex_nonlist\<lparr>initialized := True\<rparr>, 2)"
    by (simp add: CreateWalletsHandler_handle_def cnt loop add_def readData_def initialize_def
          data_get_def)
  have after: "fst (count ''eth'' (ex_nonlist\<lparr>initialized := True\<rparr>)) = Inr 0"
    by (simp add: count_def getWallets_def readData_def initialize_def data_get_def)
  show ?thesis
    unfolding run using cnt loop after by simp
qed


section \<open>Balances: aggregation\<close>

lemma balances_loop_sums:
  "balances_loop provider ws tb zc s = (r, s', t) \<Longrightarrow>
     totalBalance r = tb + sum_list (observed t) \<and>
     zeroBalanceCount r = zc + length (filter (\<lambda>b. b = 0) (observed t)) \<and>
     map event_address t = map publicKey ws"
proof (induction ws arbitrary: tb zc s r s' t)
  case Nil
  then show ?case by auto
next
  case (Cons w ws)
  obtain o1 s1 where q: "getBalance provider (publicKey w) s = (o1, s1)"
    by (cases "getBalance provider (publicKey w) s")
  show ?case
  proof (cases o1)
    case (Inl e)
    obtain r2 s2 t2 where rec: "balances_loop provider ws tb zc s1 = (r2, s2, t2)"
      by (cases "balances_loop provider ws tb zc s1")
    with Cons.prems q Inl have "r = r2" "t = Balance (publicKey w) (Inl e) # t2" by auto
    with Cons.IH [OF rec] show ?thesis by simp
  next
    case (Inr b)
    obtain r2 s2 t2 where rec:
      "balances_loop provider ws (tb + b) (if b = 0 then zc + 1 else zc) s1 = (r2, s2, t2)"
      by (cases "balances_loop provider ws (tb + b) (if b = 0 then zc + 1 else zc) s1")
    with Cons.prems q Inr have "r = r2" "t = Balance (publicKey w) (Inr b) # t2" by auto
    with Cons.IH [OF rec] show ?thesis by simp
  qed
qed


text \<open>
  C6. When the provider is resolved and the registry is read, the balances operation
  queries every registered wallet once, in registry order, whatever the queries answer
  (a query that throws aborts nothing); the total it reports is the sum of the balances
  that were observed, and its zero-balance count is the number of observed balances
  equal to 0. For the answers 0, 5, a throw, 0, 10 the total is 15 and the count is 2.
\<close>

theorem balances_aggregate:
  assumes "forChain chain = Inr provider" and "fst (getWallets chain st) = Inr wallets"
  shows "\<exists>r st' s' t.
           GetBalancesHandler_handle forChain chain (st, s) = (Inr r, st', s', t) \<and>
           map event_address t = map publicKey wallets \<and>
           totalBalance r = sum_list (observed t) \<and>
           zeroBalanceCount r = length (filter (\<lambda>b. b = 0) (observed t))"
proof -
  obtain st1 where gw: "getWallets chain st = (Inr wallets, st1)"
    using assms(2) by (cases "getWallets chain st") auto
  obtain r s1 t where l: "balances_loop provider wallets 0 0 s = (r, s1, t)"
    by (cases "balances_loop provider wallets 0 0 s")
  have "GetBalancesHandler_handle forChain chain (st, s) = (Inr r, st1, s1, t)"
    using assms(1) gw l by (simp add: GetBalancesHandler_handle_def)
  with balances_loop_sums [OF l] show ?thesis by simp
qed

theorem balances_aggregate_witness:
  "\<exists>st' s' t.
     GetBalancesHandler_handle (\<lambda>c. Inr replay_provider) ''eth''
        (ex_store5, [Inr 0, Inr 5, Inl (Error ''timeout''), Inr 0, Inr 10]) =
       (Inr \<lparr>totalBalance = 15, zeroBalanceCount = 2\<rparr>, st', s', t :: nat event list) \<and>
     observed t = [0, 5, 0, 10] \<and> length t = 5"
proof -
  have gw: "fst (getWallets ''eth'' ex_store5) =
      Inr [ex_w ''a1'', ex_w ''a2'', ex_w ''a3'', ex_w ''a4'', ex_w ''a5'']"
    by (simp add: getWallets_def readData_def initialize_def)
  have fc: "(\<lambda>c. Inr replay_provider) ''eth'' = Inr (replay_provider :: (nat, (error + int) list) ChainProvider)"
    by simp
  have run: "GetBalancesHandler_handle (\<lambda>c. Inr replay_provider) ''eth''
        (ex_store5, [Inr 0, Inr 5, Inl (Error ''timeout''), Inr 0, Inr 10]) =
       (Inr \<lparr>totalBalance = 15, zeroBalanceCount = 2\<rparr>,
        snd (getWallets ''eth'' ex_store5), [],
        [Balance ''a1'' (Inr 0), Balance ''a2'' (Inr 5), Balance ''a3'' (Inl (Error ''timeout'')),
         Balance ''a4'' (Inr 0), Balance ''a5'' (Inr 10) :: nat event])"
    by (simp add: GetBalancesHandler_handle_def getWallets_def readData_def initialize_def
          replay_provider_def)
  from balances_aggregate [OF fc gw, of "[Inr 0, Inr 5, Inl (Error ''timeout''), Inr 0, Inr 10]"] run
  show ?thesis by simp
qed

section \<open>Drain: batching\<close>

lemma settle_all_events:
  "settle_all provider rc bn cs sm s = (sm', s', t) \<Longrightarrow>
     issued_calls t = [] \<and>
     (\<forall>c \<in> set cs. \<exists>r. Resolved bn (fst c) r \<in> set t) \<and>
     (\<forall>p < length t. \<forall>k j. t ! p \<noteq> Issued k j)"
proof (induction cs arbitrary: sm s sm' s' t)
  case Nil
  then show ?case by simp
next
  case (Cons c cs)
  obtain j w where c: "c = (j, w)" by (cases c)
  obtain r s1 where d: "drainWallet provider rc w s = (r, s1)"
    by (cases "drainWallet provider rc w s")
  obtain sm2 s2 t2 where rec: "settle_all provider rc bn cs (settle r sm) s1 = (sm2, s2, t2)"
    by (cases "settle_all provider rc bn cs (settle r sm) s1")
  with Cons.prems c d have t: "t = Resolved bn j r # t2" by simp
  from Cons.IH [OF rec] t c show ?case
    by (auto simp: nth_Cons split: nat.splits)
qed

lemma issued_calls_append: "issued_calls (a @ b) = issued_calls a @ issued_calls b"
  by (induction a rule: issued_calls.induct) simp_all

lemma issued_calls_map_Issued:
  "issued_calls (map (\<lambda>c. Issued bn (f c)) cs) = map (\<lambda>c. (bn, f c)) cs"
  by (induction cs) simp_all

lemma batch_div:
  assumes "i mod 20 = 0" "i \<le> j" "j < i + 20"
  shows "j div 20 = i div (20::nat)"
proof -
  from assms(1) have "20 dvd i" by (simp add: dvd_eq_mod_eq_0)
  then obtain q where q: "i = 20 * q" by (auto elim: dvdE)
  have "j div 20 = q"
    by (rule div_nat_eqI) (use q assms in simp_all)
  moreover have "i div 20 = q" using q by simp
  ultimately show ?thesis by simp
qed

lemma drain_loop_issued:
  "drain_loop provider latency rc ws i sm s = (sm', s', t) \<Longrightarrow> i mod 20 = 0 \<Longrightarrow>
   issued_calls t = map (\<lambda>j. (j div 20 + 1, j)) [i..<length ws]"
proof (induction provider latency rc ws i sm s arbitrary: sm' s' t rule: drain_loop.induct)
  case (1 provider latency rc ws i sm s)
  show ?case
  proof (cases "i < length ws")
    case False
    with "1.prems" show ?thesis by (simp add: drain_loop.simps)
  next
    case True
    let ?batch = "take concurrencyLimit (drop i ws)"
    let ?bn = "i div concurrencyLimit + 1"
    let ?calls = "zip [i ..< i + length ?batch] ?batch"
    obtain sm1 s1 t1 where st: "settle_all provider rc ?bn
        (sort_key (\<lambda>c. latency (fst c)) ?calls) sm s = (sm1, s1, t1)"
      by (cases "settle_all provider rc ?bn (sort_key (\<lambda>c. latency (fst c)) ?calls) sm s")
    obtain sm2 s2 t2 where rec:
      "drain_loop provider latency rc ws (i + concurrencyLimit) sm1 s1 = (sm2, s2, t2)"
      by (cases "drain_loop provider latency rc ws (i + concurrencyLimit) sm1 s1")
    have t: "t = map (\<lambda>c. Issued ?bn (fst c)) ?calls @ t1 @ t2"
      using "1.prems"(1) True st rec
      by (simp add: drain_loop.simps [of provider latency rc ws i] Let_def)
    have m: "(i + concurrencyLimit) mod 20 = 0"
      using "1.prems"(2) by (simp add: concurrencyLimit_def)
    have ih: "issued_calls t2 = map (\<lambda>j. (j div 20 + 1, j)) [i + concurrencyLimit..<length ws]"
      using "1.IH" [OF True refl refl refl st [symmetric] refl rec m] .
    define len where "len = length ?batch"
    have len: "len = min 20 (length ws - i)"
      by (simp add: len_def concurrencyLimit_def)
    have fstc: "map fst ?calls = [i ..< i + len]" by (simp add: len_def)
    have bn: "?bn = j div 20 + 1" if "j \<in> set [i ..< i + len]" for j
    proof -
      from that len have "i \<le> j" "j < i + 20" by auto
      from batch_div [OF "1.prems"(2) this] show ?thesis
        by (simp add: concurrencyLimit_def)
    qed
    have "map (\<lambda>c. (?bn, fst c)) ?calls = map (\<lambda>j. (?bn, j)) (map fst ?calls)"
      by (simp only: map_map comp_def)
    also have "\<dots> = map (\<lambda>j. (?bn, j)) [i ..< i + len]"
      by (simp only: fstc)
    also have "\<dots> = map (\<lambda>j. (j div 20 + 1, j)) [i ..< i + len]"
      by (rule map_cong [OF refl]) (simp only: bn)
    finally have head: "map (\<lambda>c. (?bn, fst c)) ?calls =
        map (\<lambda>j. (j div 20 + 1, j)) [i ..< i + len]" .
    have split: "[i..<length ws] = [i ..< i + len] @ [i + concurrencyLimit..<length ws]"
    proof (cases "length ws - i < 20")
      case True
      with len \<open>i < length ws\<close> show ?thesis by (simp add: concurrencyLimit_def)
    next
      case False
      with len have l20: "len = 20" by simp
      from False obtain k where k: "length ws = (i + 20) + k"
        using \<open>i < length ws\<close> by (metis add.commute le_add_diff_inverse2 linorder_not_less
            less_imp_le_nat add.assoc)
      have "[i..<i + 20 + k] = [i..<i + 20] @ [i + 20..<i + 20 + k]"
        by (rule upt_add_eq_append) simp
      then have "[i..<i + 20] @ [i + 20..<length ws] = [i..<length ws]"
        by (simp only: k)
      with l20 show ?thesis by (simp add: concurrencyLimit_def)
    qed
    from settle_all_events [OF st] have "issued_calls t1 = []" by simp
    then have "issued_calls t =
        map (\<lambda>c. (?bn, fst c)) ?calls @ issued_calls t2"
      by (simp only: t issued_calls_append issued_calls_map_Issued append_Nil)
    also have "\<dots> = map (\<lambda>j. (j div 20 + 1, j)) [i ..< i + len] @
        map (\<lambda>j. (j div 20 + 1, j)) [i + concurrencyLimit..<length ws]"
      by (simp only: head ih)
    also have "\<dots> = map (\<lambda>j. (j div 20 + 1, j)) [i..<length ws]"
      by (simp only: split map_append)
    finally show ?thesis .
  qed
qed


lemma drain_loop_order:
  "drain_loop provider latency rc ws i sm s = (sm', s', t) \<Longrightarrow> i mod 20 = 0 \<Longrightarrow>
   \<forall>p<length t. \<forall>k j. t ! p = Issued k j \<longrightarrow>
      k = j div 20 + 1 \<and> i \<le> j \<and>
      (\<forall>i'. i \<le> i' \<and> i' < length ws \<and> i' div 20 + 1 < k \<longrightarrow>
         (\<exists>r. Resolved (i' div 20 + 1) i' r \<in> set (take p t)))"
proof (induction provider latency rc ws i sm s arbitrary: sm' s' t rule: drain_loop.induct)
  case (1 provider latency rc ws i sm s)
  show ?case
  proof (cases "i < length ws")
    case False
    with "1.prems" show ?thesis by (simp add: drain_loop.simps)
  next
    case True
    let ?batch = "take concurrencyLimit (drop i ws)"
    let ?bn = "i div concurrencyLimit + 1"
    let ?calls = "zip [i ..< i + length ?batch] ?batch"
    obtain sm1 s1 t1 where st: "settle_all provider rc ?bn
        (sort_key (\<lambda>c. latency (fst c)) ?calls) sm s = (sm1, s1, t1)"
      by (cases "settle_all provider rc ?bn (sort_key (\<lambda>c. latency (fst c)) ?calls) sm s")
    obtain sm2 s2 t2 where rec:
      "drain_loop provider latency rc ws (i + concurrencyLimit) sm1 s1 = (sm2, s2, t2)"
      by (cases "drain_loop provider latency rc ws (i + concurrencyLimit) sm1 s1")
    define bn where "bn = ?bn"
    define calls where "calls = ?calls"
    define H where "H = map (\<lambda>c. Issued bn (fst c)) calls"
    have t: "t = H @ t1 @ t2"
      using "1.prems"(1) True st rec
      by (simp add: drain_loop.simps [of provider latency rc ws i] Let_def H_def calls_def bn_def)
    have m: "(i + concurrencyLimit) mod 20 = 0"
      using "1.prems"(2) by (simp add: concurrencyLimit_def)
    note ih = "1.IH" [OF True refl refl refl st [symmetric] refl rec m]
    define len where "len = length ?batch"
    have len: "len = min 20 (length ws - i)"
      by (simp add: len_def concurrencyLimit_def)
    have fstc: "map fst calls = [i ..< i + len]" by (simp add: len_def calls_def)
    have lenc: "length calls = len" by (simp add: len_def calls_def)
    have lenH: "length H = len" by (simp add: H_def lenc)
    have bn: "bn = j div 20 + 1" if "i \<le> j" "j < i + 20" for j
      using batch_div [OF "1.prems"(2) that] by (simp add: concurrencyLimit_def bn_def)
    have bn_i: "bn = i div 20 + 1" by (simp add: concurrencyLimit_def bn_def)
    from settle_all_events [OF st]
    have res: "\<forall>c \<in> set calls. \<exists>r. Resolved bn (fst c) r \<in> set t1"
      and noiss: "\<forall>p < length t1. \<forall>k j. t1 ! p \<noteq> Issued k j"
      by (simp_all add: calls_def bn_def)
    have resolved: "\<exists>r. Resolved (i' div 20 + 1) i' r \<in> set t1"
      if "i \<le> i'" "i' < length ws" "i' < i + 20" for i'
    proof -
      from that len have "i' \<in> set [i ..< i + len]" by auto
      then have "i' \<in> set (map fst calls)" by (simp only: fstc)
      then have "i' \<in> fst ` set calls" by (simp only: set_map)
      then obtain c where c: "c \<in> set calls" "i' = fst c" by blast
      with res obtain r where "Resolved bn i' r \<in> set t1" by blast
      with bn [OF that(1,3)] show ?thesis by auto
    qed
    show ?thesis
    proof (intro allI impI)
      fix p k j
      assume p: "p < length t" and ev: "t ! p = Issued k j"
      consider (head) "p < len" | (mid) "len \<le> p" "p < len + length t1"
        | (tail) "len + length t1 \<le> p" by linarith
      then show "k = j div 20 + 1 \<and> i \<le> j \<and>
          (\<forall>i'. i \<le> i' \<and> i' < length ws \<and> i' div 20 + 1 < k \<longrightarrow>
             (\<exists>r. Resolved (i' div 20 + 1) i' r \<in> set (take p t)))"
      proof cases
        case head
        then have "t ! p = H ! p" by (simp add: t nth_append lenH)
        also have "\<dots> = Issued bn (fst (calls ! p))"
          unfolding H_def using head lenc by (intro nth_map) simp
        also have "fst (calls ! p) = map fst calls ! p"
          using head lenc by (simp only: nth_map)
        also have "\<dots> = i + p" using head by (simp only: fstc) simp
        finally have "t ! p = Issued bn (i + p)" .
        with ev have k: "k = bn" and j: "j = i + p" by simp_all
        have jr: "i \<le> j" "j < i + 20" using j head len by simp_all
        have kj: "k = j div 20 + 1" using k bn [OF jr] by simp
        have "\<not> (i \<le> i' \<and> i' div 20 + 1 < k)" for i'
        proof
          assume a: "i \<le> i' \<and> i' div 20 + 1 < k"
          then have "i div 20 \<le> i' div 20" by (intro div_le_mono) simp
          with a k bn_i show False by simp
        qed
        with kj jr show ?thesis by blast
      next
        case mid
        define q where "q = p - len"
        have q: "p = length H + q" "q < length t1" using mid by (simp_all add: q_def lenH)
        have "t ! p = (H @ t1 @ t2) ! (length H + q)" by (simp only: t q(1))
        also have "\<dots> = (t1 @ t2) ! q" by (rule nth_append_length_plus)
        also have "\<dots> = t1 ! q" using q(2) by (simp add: nth_append)
        finally have "t1 ! q = Issued k j" using ev by simp
        with q(2) noiss show ?thesis by blast
      next
        case tail
        define p' where "p' = p - len - length t1"
        have p': "p = len + length t1 + p'" using tail by (simp add: p'_def)
        have "t ! p = (H @ t1 @ t2) ! (length H + (length t1 + p'))"
          by (simp only: t p' lenH add.assoc)
        also have "\<dots> = (t1 @ t2) ! (length t1 + p')" by (rule nth_append_length_plus)
        also have "\<dots> = t2 ! p'" by (rule nth_append_length_plus)
        finally have ev2: "t2 ! p' = Issued k j" using ev by simp
        have pl: "p' < length t2" using p p' by (simp add: t lenH)
        from ih pl ev2
        have kj: "k = j div 20 + 1" and ij: "i + concurrencyLimit \<le> j"
          and later: "\<And>i'. i + concurrencyLimit \<le> i' \<Longrightarrow> i' < length ws \<Longrightarrow> i' div 20 + 1 < k \<Longrightarrow>
             \<exists>r. Resolved (i' div 20 + 1) i' r \<in> set (take p' t2)"
          by blast+
        have tk: "take p t = H @ t1 @ take p' t2"
          by (simp add: t p' lenH)
        have "\<exists>r. Resolved (i' div 20 + 1) i' r \<in> set (take p t)"
          if a: "i \<le> i' \<and> i' < length ws \<and> i' div 20 + 1 < k" for i'
        proof (cases "i' < i + 20")
          case True
          with resolved [of i'] a obtain r where "Resolved (i' div 20 + 1) i' r \<in> set t1" by blast
          then show ?thesis by (auto simp: tk)
        next
          case False
          then have "i + concurrencyLimit \<le> i'" by (simp add: concurrencyLimit_def)
          from later [OF this] a obtain r where "Resolved (i' div 20 + 1) i' r \<in> set (take p' t2)"
            by blast
          then show ?thesis by (auto simp: tk)
        qed
        with kj ij show ?thesis by (simp add: concurrencyLimit_def)
      qed
    qed
  qed
qed



lemma batch_sizes_45:
  "map (\<lambda>k. length (filter (\<lambda>c. fst c = k) (map (\<lambda>j. (j div 20 + 1, j)) [0..<45])))
     [1, 2, 3, 4] = [20, 20, 5, 0 :: nat]"
  by code_simp


text \<open>
  C5. When the provider is resolved and the registry is read, drain issues one call per
  registered wallet, in registry order, the wallet at index \<open>j\<close> in batch \<open>j div 20 + 1\<close>
  (consecutive batches of width 20); and whenever a call of some batch is issued, every
  call of every earlier batch has settled before. For 45 wallets the batches have 20, 20
  and 5 calls.
\<close>

theorem drain_batching:
  assumes "forChain chain = Inr provider" and "fst (getWallets chain st) = Inr wallets"
  shows "\<exists>sm st' s' t.
           DrainWalletsHandler_handle forChain latency chain (st, s) = (Inr sm, st', s', t) \<and>
           issued_calls t = map (\<lambda>j. (j div 20 + 1, j)) [0..<length wallets] \<and>
           (\<forall>p<length t. \<forall>k j. t ! p = Issued k j \<longrightarrow>
              (\<forall>i<length wallets. i div 20 + 1 < k \<longrightarrow>
                 (\<exists>r. Resolved (i div 20 + 1) i r \<in> set (take p t))))"
proof -
  obtain st1 where gw: "getWallets chain st = (Inr wallets, st1)"
    using assms(2) by (cases "getWallets chain st") auto
  let ?s0 = "\<lparr>successCount = 0, failureCount = 0, zeroBalanceCount' = 0,
              insufficientBalanceCount = 0\<rparr>"
  obtain sm s1 t where l:
    "drain_loop provider latency (publicKey (getFunderWallet provider)) wallets 0 ?s0 s = (sm, s1, t)"
    by (cases "drain_loop provider latency (publicKey (getFunderWallet provider)) wallets 0 ?s0 s")
  have run: "DrainWalletsHandler_handle forChain latency chain (st, s) = (Inr sm, st1, s1, t)"
    using assms(1) gw l by (simp add: DrainWalletsHandler_handle_def)
  have z: "(0::nat) mod 20 = 0" by simp
  have ord: "\<forall>p<length t. \<forall>k j. t ! p = Issued k j \<longrightarrow>
              (\<forall>i<length wallets. i div 20 + 1 < k \<longrightarrow>
                 (\<exists>r. Resolved (i div 20 + 1) i r \<in> set (take p t)))"
    using drain_loop_order [OF l z] by blast
  from drain_loop_issued [OF l z] ord run show ?thesis by blast
qed

theorem drain_batching_witness:
  "\<exists>sm st' s' t.
     DrainWalletsHandler_handle (\<lambda>c. Inr ex_drainer) (\<lambda>j. 45 - j) ''eth'' (ex_store45, ()) =
       (Inr sm, st', s', t) \<and>
     length (issued_calls t) = 45 \<and>
     map (\<lambda>k. length (filter (\<lambda>c. fst c = k) (issued_calls t))) [1, 2, 3, 4] = [20, 20, 5, 0] \<and>
     (\<forall>p<length t. \<forall>j. t ! p = Issued 2 j \<longrightarrow> (\<exists>r. Resolved 1 19 r \<in> set (take p t))) \<and>
     (\<forall>p<length t. \<forall>j. t ! p = Issued 3 j \<longrightarrow> (\<exists>r. Resolved 2 39 r \<in> set (take p t)))"
proof -
  have fc: "(\<lambda>c. Inr ex_drainer) ''eth'' = Inr ex_drainer" by simp
  have gw: "fst (getWallets ''eth'' ex_store45) = Inr (replicate 45 ex_wA)"
    by (simp add: getWallets_def readData_def initialize_def)
  from drain_batching [OF fc gw, of "\<lambda>j. 45 - j" "()"]
  obtain sm st' s' t where
    run: "DrainWalletsHandler_handle (\<lambda>c. Inr ex_drainer) (\<lambda>j. 45 - j) ''eth'' (ex_store45, ()) =
       (Inr sm, st', s', t)"
    and iss: "issued_calls t = map (\<lambda>j. (j div 20 + 1, j)) [0..<45]"
    and ord: "\<And>p k j i. p < length t \<Longrightarrow> t ! p = Issued k j \<Longrightarrow> i < 45 \<Longrightarrow> i div 20 + 1 < k \<Longrightarrow>
                 \<exists>r. Resolved (i div 20 + 1) i r \<in> set (take p t)"
    by (auto simp: length_replicate)
  have a: "length (issued_calls t) = 45" by (simp add: iss)
  have b: "map (\<lambda>k. length (filter (\<lambda>c. fst c = k) (issued_calls t))) [1, 2, 3, 4] = [20, 20, 5, 0]"
    by (simp only: iss batch_sizes_45)
  have c: "\<exists>r. Resolved 1 19 r \<in> set (take p t)" if "p < length t" "t ! p = Issued 2 j" for p j
    using ord [OF that, of 19] by (simp add: numeral_2_eq_2)
  have d: "\<exists>r. Resolved 2 39 r \<in> set (take p t)" if "p < length t" "t ! p = Issued 3 j" for p j
    using ord [OF that, of 39] by (simp add: numeral_2_eq_2 numeral_3_eq_3)
  have c': "\<forall>p<length t. \<forall>j. t ! p = Issued 2 j \<longrightarrow> (\<exists>r. Resolved 1 19 r \<in> set (take p t))"
    using c by blast
  have d': "\<forall>p<length t. \<forall>j. t ! p = Issued 3 j \<longrightarrow> (\<exists>r. Resolved 2 39 r \<in> set (take p t))"
    using d by blast
  show ?thesis
    by (rule exI [of _ sm], rule exI [of _ st'], rule exI [of _ s'], rule exI [of _ t])
       (intro conjI run a b c' d')
qed


section \<open>Fund: pre-check and threshold\<close>

text \<open>
  What the handler does, with the conversion as the code makes it (\<open>chainUnits\<close>: the
  scale \<open>10 ^ 9\<close> for the chain named solana, \<open>10 ^ 18\<close> for every other name). When the
  required total exceeds the funder's balance the handler throws after the one balance
  query, with no call of \<open>fundWallet\<close>. Otherwise the wallets are taken in registry order,
  and \<open>fundWallet\<close> is called exactly for those whose queried balance is below the
  converted threshold.
\<close>

lemma fund_precheck:
  assumes "forChain chain = Inr provider" and "fst (getWallets chain st) = Inr wallets"
    and "chainUnits toBigInt chain amount = Some a"
    and "fst (getBalance provider (publicKey (getFunderWallet provider)) s) = Inr balance"
    and "a * int (length wallets) > balance"
  shows "\<exists>msg. FundWalletsHandler_handle forChain toBigInt chain amount minBalance (st, s) =
           (Inl (Error msg), snd (getWallets chain st),
            snd (getBalance provider (publicKey (getFunderWallet provider)) s),
            [Balance (publicKey (getFunderWallet provider)) (Inr balance)])"
proof -
  obtain st1 where gw: "getWallets chain st = (Inr wallets, st1)"
    using assms(2) by (cases "getWallets chain st") auto
  obtain s1 where gb: "getBalance provider (publicKey (getFunderWallet provider)) s = (Inr balance, s1)"
    using assms(4) by (cases "getBalance provider (publicKey (getFunderWallet provider)) s") auto
  show ?thesis
    using assms(1,3,5) gw gb by (simp add: FundWalletsHandler_handle_def Let_def)
qed

lemma fund_loop_events:
  "fund_loop provider toBigInt chain amount minBalance funder ws sm s = (r, s', t) \<Longrightarrow>
   chainUnits toBigInt chain minBalance = Some m \<Longrightarrow>
     funded t = map fst (filter (\<lambda>q. snd q < m) (queried t)) \<and>
     (\<forall>sm'. r = Inr sm' \<longrightarrow>
        map fst (queried t) = map publicKey ws \<and>
        skippedCount' sm' = skippedCount' sm + length (filter (\<lambda>q. m \<le> snd q) (queried t)))"
proof (induction ws arbitrary: sm s r s' t)
  case Nil
  then show ?case by auto
next
  case (Cons w ws)
  obtain o1 s1 where q: "getBalance provider (publicKey w) s = (o1, s1)"
    by (cases "getBalance provider (publicKey w) s")
  show ?case
  proof (cases o1)
    case (Inl e)
    with Cons.prems q show ?thesis by auto
  next
    case (Inr b)
    show ?thesis
    proof (cases "m \<le> b")
      case True
      let ?sm = "sm\<lparr>skippedCount' := skippedCount' sm + 1\<rparr>"
      obtain r2 s2 t2 where rec:
        "fund_loop provider toBigInt chain amount minBalance funder ws ?sm s1 = (r2, s2, t2)"
        by (cases "fund_loop provider toBigInt chain amount minBalance funder ws ?sm s1")
      with Cons.prems q Inr True
      have "r = r2" "t = Balance (publicKey w) (Inr b) # t2" by auto
      with Cons.IH [OF rec Cons.prems(2)] True show ?thesis by simp
    next
      case False
      obtain res s2 where fw: "fundWallet provider amount funder (publicKey w) s1 = (res, s2)"
        by (cases "fundWallet provider amount funder (publicKey w) s1")
      let ?sm = "case res of Inl e \<Rightarrow> sm
                 | Inr result \<Rightarrow> if successful result
                     then sm\<lparr>fundedCount := fundedCount sm + 1\<rparr> else sm"
      obtain r2 s3 t2 where rec:
        "fund_loop provider toBigInt chain amount minBalance funder ws ?sm s2 = (r2, s3, t2)"
        by (cases "fund_loop provider toBigInt chain amount minBalance funder ws ?sm s2")
      with Cons.prems q Inr False fw
      have rt: "r = r2" "t = Balance (publicKey w) (Inr b) # Fund amount funder (publicKey w) res # t2"
        by auto
      have sk: "skippedCount' ?sm = skippedCount' sm"
        by (cases res) auto
      from Cons.IH [OF rec Cons.prems(2)] rt False sk show ?thesis by simp
    qed
  qed
qed


lemma fund_threshold:
  assumes "forChain chain = Inr provider" and "fst (getWallets chain st) = Inr wallets"
    and "chainUnits toBigInt chain amount = Some a"
    and "fst (getBalance provider (publicKey (getFunderWallet provider)) s) = Inr balance"
    and "a * int (length wallets) \<le> balance"
    and "chainUnits toBigInt chain minBalance = Some m"
  shows "\<exists>r st' s' t.
           FundWalletsHandler_handle forChain toBigInt chain amount minBalance (st, s) =
             (r, st', s', Balance (publicKey (getFunderWallet provider)) (Inr balance) # t) \<and>
           funded t = map fst (filter (\<lambda>q. snd q < m) (queried t)) \<and>
           (\<forall>sm. r = Inr sm \<longrightarrow>
              map fst (queried t) = map publicKey wallets \<and>
              skippedCount' sm = length (filter (\<lambda>q. m \<le> snd q) (queried t)))"
proof -
  let ?f = "getFunderWallet provider"
  obtain st1 where gw: "getWallets chain st = (Inr wallets, st1)"
    using assms(2) by (cases "getWallets chain st") auto
  obtain s1 where gb: "getBalance provider (publicKey ?f) s = (Inr balance, s1)"
    using assms(4) by (cases "getBalance provider (publicKey ?f) s") auto
  obtain r s2 t where l:
    "fund_loop provider toBigInt chain amount minBalance ?f wallets
       \<lparr>fundedCount = 0, skippedCount' = 0\<rparr> s1 = (r, s2, t)"
    by (cases "fund_loop provider toBigInt chain amount minBalance ?f wallets
       \<lparr>fundedCount = 0, skippedCount' = 0\<rparr> s1")
  have run: "FundWalletsHandler_handle forChain toBigInt chain amount minBalance (st, s) =
      (r, st1, s2, Balance (publicKey ?f) (Inr balance) # t)"
    using assms(1,3,5) gw gb l by (simp add: FundWalletsHandler_handle_def Let_def)
  from fund_loop_events [OF l assms(6)] run show ?thesis by simp
qed

lemma ex_forChain_devnet: "ex_forChain ''solana-devnet'' = Inr ex_solana"
  by (simp add: ex_forChain_def ex_cfg_def Factory_forChain_def getNetworkConfig_def)


text \<open>
  C2, at an input where the code departs from it. The configuration declares the chain
  solana-devnet of type solana, and the factory resolves it to the Solana provider. Two
  wallets are registered, the amount is 1 SOL and the funder holds 10 SOL, that is
  \<open>10 ^ 10\<close> lamports. The required total in lamports is \<open>2 * 10 ^ 9\<close>, which the balance
  covers; the handler converts at the scale \<open>10 ^ 18\<close>, because the name is not solana,
  requires \<open>2 * 10 ^ 18\<close> and throws.
\<close>

theorem fund_precheck_units_by_name:
  "ex_forChain ''solana-devnet'' = Inr ex_solana \<and>
   (case FundWalletsHandler_handle ex_forChain ex_toBigInt ''solana-devnet'' (1, 0) (1, 0)
           (ex_store_devnet [''W1'', ''W2''], (\<lambda>a. 0)(''F'' := 10000000000)) of
      (r, st', s', t) \<Rightarrow>
        r = Inl (Error (''Funder F balance of 10000000000 is less than the required ''
                        @ ''funding amount of 2000000000000000000'')) \<and>
        t = [Balance ''F'' (Inr 10000000000)]) \<and>
   chainUnits ex_toBigInt ''solana'' (1, 0) = Some 1000000000 \<and>
   1000000000 * int (length [''W1'', ''W2'']) \<le> (10000000000 :: int)"
  by (simp add: ex_forChain_devnet FundWalletsHandler_handle_def getWallets_def readData_def
        initialize_def chainUnits_def string_of_int_def string_of_nat.simps ex_solana_def)


text \<open>
  C8, at an input where the code departs from it, by the same conversion. On the chain
  solana-devnet, with amount and threshold \<open>2 ^ -20\<close> SOL (953 lamports) and a funder
  holding \<open>10 ^ 12\<close> lamports, the one registered wallet has a balance of 5000 lamports,
  above the threshold; the handler compares it with 953674316406 and calls \<open>fundWallet\<close>
  for it.
\<close>

theorem fund_threshold_units_by_name:
  "ex_forChain ''solana-devnet'' = Inr ex_solana \<and>
   (case FundWalletsHandler_handle ex_forChain ex_toBigInt ''solana-devnet'' (1, 20) (1, 20)
           (ex_store_devnet [''W1''], (\<lambda>a. 0)(''F'' := 1000000000000, ''W1'' := 5000)) of
      (r, st', s', t) \<Rightarrow>
        r = Inr \<lparr>fundedCount = 1, skippedCount' = 0\<rparr> \<and>
        t = [Balance ''F'' (Inr 1000000000000), Balance ''W1'' (Inr 5000),
             Fund (1, 20) (getFunderWallet ex_solana) ''W1''
               (Inr \<lparr>hash = Some ''sig'', successful = True, reason = None\<rparr>)]) \<and>
   chainUnits ex_toBigInt ''solana'' (1, 20) = Some 953 \<and> (953 :: int) \<le> 5000"
  by (simp add: ex_forChain_devnet FundWalletsHandler_handle_def getWallets_def readData_def
        initialize_def chainUnits_def ex_solana_def)

end
